theory Spec2Isabelle
  imports Complex_Main
begin

section \<open>The item ejector system of shapez.io (src/js/game/systems/item\_ejector.js)\<close>

text \<open>
  The theory embeds the class \<^verbatim>\<open>ItemEjectorSystem\<close>: the invalidation tracker
  (\<^verbatim>\<open>checkForCacheInvalidation\<close>), the connectivity cache builder
  (\<^verbatim>\<open>recomputeCache\<close>, \<^verbatim>\<open>recomputeAreaCache\<close>,
  \<^verbatim>\<open>recomputeSingleEntityCache\<close>), the per-tick transfer loop
  (\<^verbatim>\<open>update\<close>) and the handover dispatcher (\<^verbatim>\<open>tryPassOverItem\<close>).

  JavaScript objects are held in an explicit store: an entity reference is its uid, a
  reference to an ejector slot is its index in the \<^verbatim>\<open>slots\<close> array of its component.
  An exception (a failed \<^verbatim>\<open>assert\<close>, a property read on \<^verbatim>\<open>null\<close> or
  \<^verbatim>\<open>undefined\<close>) is the left summand of the result. The collaborators of the system
  that live in other files (belt paths, storages, processors, underground belts, energy
  generators, the acceptor component) keep their state in a value of an arbitrary type
  \<open>'s\<close>; their methods are functions on it and are parameters of the model.
  The methods \<^verbatim>\<open>findMatchingSlot\<close> and \<^verbatim>\<open>canAcceptItem\<close> only read (the spec calls
  the second a side-effect-free check); none of the collaborators writes an ejector slot.
  JavaScript numbers (\<^verbatim>\<open>progress\<close>, speeds) are modelled as real numbers; tile
  coordinates are integers. Logging and the debug rendering of the recomputed rectangle
  change no state and are left out.
\<close>

subsection \<open>Data model\<close>

type_synonym uid = nat
type_synonym item = nat
type_synonym vector = "int \<times> int"

datatype error = TypeError | AssertionError string

datatype enumDirection = DirTop | DirRight | DirBottom | DirLeft

text \<open>Modelled from the spec: \<^verbatim>\<open>enumDirectionToVector\<close> of core/vector.js is not among the
  sources; the spec calls it the unit vector of the direction. Screen coordinates: the
  y axis points down.\<close>

fun enumDirectionToVector :: "enumDirection \<Rightarrow> vector" where
  "enumDirectionToVector DirTop = (0, -1)"
| "enumDirectionToVector DirRight = (1, 0)"
| "enumDirectionToVector DirBottom = (0, 1)"
| "enumDirectionToVector DirLeft = (-1, 0)"

definition vec_add :: "vector \<Rightarrow> vector \<Rightarrow> vector" where
  "vec_add a b = (fst a + fst b, snd a + snd b)"

text \<open>Modelled from the spec: the class \<^verbatim>\<open>Rectangle\<close> of core/rectangle.js is not among
  the sources. A rectangle is its corner \<open>x\<close>, \<open>y\<close> and its size \<open>w\<close>, \<open>h\<close>;
  \<^verbatim>\<open>right()\<close> and \<^verbatim>\<open>bottom()\<close> are the exclusive far edges;
  \<^verbatim>\<open>expandedInAllDirections(n)\<close> moves every edge outwards by \<open>n\<close>;
  \<^verbatim>\<open>getUnion\<close> is the smallest rectangle around both (the spec: a single rectangle
  covering the union).\<close>

datatype rectangle = Rectangle (rect_x: int) (rect_y: int) (rect_w: int) (rect_h: int)

definition rect_right :: "rectangle \<Rightarrow> int" where
  "rect_right r = rect_x r + rect_w r"

definition rect_bottom :: "rectangle \<Rightarrow> int" where
  "rect_bottom r = rect_y r + rect_h r"

definition expandedInAllDirections :: "rectangle \<Rightarrow> int \<Rightarrow> rectangle" where
  "expandedInAllDirections r amount =
     Rectangle (rect_x r - amount) (rect_y r - amount)
               (rect_w r + 2 * amount) (rect_h r + 2 * amount)"

definition getUnion :: "rectangle \<Rightarrow> rectangle \<Rightarrow> rectangle" where
  "getUnion a b =
     (let left = min (rect_x a) (rect_x b);
          top = min (rect_y a) (rect_y b);
          right = max (rect_right a) (rect_right b);
          bottom = max (rect_bottom a) (rect_bottom b)
      in Rectangle left top (right - left) (bottom - top))"

text \<open>The tiles a rectangle covers: the ones the loops of \<^verbatim>\<open>recomputeAreaCache\<close> visit.\<close>

definition containsTile :: "rectangle \<Rightarrow> vector \<Rightarrow> bool" where
  "containsTile r t \<longleftrightarrow>
     rect_x r \<le> fst t \<and> fst t < rect_right r \<and> rect_y r \<le> snd t \<and> snd t < rect_bottom r"

text \<open>The \<^verbatim>\<open>StaticMapEntity\<close> component (components/static\_map\_entity.js, not among the
  sources): its rotation-aware transforms and its bounds are parameters.\<close>

record staticMapEntityComponent =
  localTileToWorld :: "vector \<Rightarrow> vector"
  localDirectionToWorld :: "enumDirection \<Rightarrow> enumDirection"
  worldToLocalTile :: "vector \<Rightarrow> vector"
  worldDirectionToLocal :: "enumDirection \<Rightarrow> enumDirection"
  getTileSpaceBounds :: rectangle

text \<open>What \<^verbatim>\<open>findMatchingSlot\<close> returns: the fields the system reads.\<close>

record matchingSlot =
  index :: nat
  acceptedDirection :: enumDirection

record ejectorSlot =
  pos :: vector
  direction :: enumDirection
  item :: "item option"
  progress :: real
  cachedDestSlot :: "matchingSlot option"
  cachedTargetEntity :: "uid option"

text \<open>\<^verbatim>\<open>cachedConnectedSlots\<close> is \<^verbatim>\<open>null\<close> or an array of references to slot objects
  of the same component: here \<open>None\<close> or the list of their indices.\<close>

record itemEjectorComponent =
  slots :: "ejectorSlot list"
  cachedConnectedSlots :: "nat list option"

record 's itemAcceptorComponent =
  findMatchingSlot :: "vector \<Rightarrow> enumDirection \<Rightarrow> matchingSlot option"
  canAcceptItem :: "nat \<Rightarrow> item \<Rightarrow> 's \<Rightarrow> bool"
  onItemAccepted :: "nat \<Rightarrow> enumDirection \<Rightarrow> item \<Rightarrow> 's \<Rightarrow> 's"

text \<open>The receiver capabilities. A method that returns a boolean and may change the
  receiver returns the pair of the boolean and the new collaborator state. A belt path is
  its method \<^verbatim>\<open>tryAcceptItem\<close>.\<close>

type_synonym 's beltPath = "item \<Rightarrow> 's \<Rightarrow> bool \<times> 's"

record 's beltComponent =
  assignedPath :: "'s beltPath option"

record 's storageComponent =
  storageCanAcceptItem :: "item \<Rightarrow> 's \<Rightarrow> bool"
  takeItem :: "item \<Rightarrow> 's \<Rightarrow> 's"

record 's itemProcessorComponent =
  processorTryTakeItem :: "item \<Rightarrow> nat \<Rightarrow> 's \<Rightarrow> bool \<times> 's"

record 's undergroundBeltComponent =
  tryAcceptExternalItem :: "item \<Rightarrow> real \<Rightarrow> 's \<Rightarrow> bool \<times> 's"

record 's energyGeneratorComponent =
  generatorTryTakeItem :: "item \<Rightarrow> 's \<Rightarrow> bool \<times> 's"

text \<open>\<^verbatim>\<open>entity.components\<close>: every component is optional.\<close>

record 's entity =
  StaticMapEntity :: "staticMapEntityComponent option"
  ItemEjector :: "itemEjectorComponent option"
  ItemAcceptor :: "'s itemAcceptorComponent option"
  Belt :: "'s beltComponent option"
  Storage :: "'s storageComponent option"
  ItemProcessor :: "'s itemProcessorComponent option"
  UndergroundBelt :: "'s undergroundBeltComponent option"
  EnergyGenerator :: "'s energyGeneratorComponent option"

text \<open>The system together with the part of \<^verbatim>\<open>this.root\<close> it touches: the store of
  entity objects (a JavaScript reference always points to an object, also after the
  entity has left the grid, so the store is total), the tile grid
  (\<^verbatim>\<open>root.map.getTileContent\<close>, which yields a reference or \<^verbatim>\<open>null\<close>), the
  entities registered with the system, the pending rectangle, the numbers
  \<^verbatim>\<open>update\<close> reads (\<^verbatim>\<open>hubGoals.getBeltBaseSpeed()\<close>,
  \<^verbatim>\<open>hubGoals.getUndergroundBeltBaseSpeed()\<close>, \<^verbatim>\<open>globalConfig.itemSpacingOnBelts\<close>,
  \<^verbatim>\<open>dynamicTickrate.deltaSeconds\<close>, and \<^verbatim>\<open>G_IS_DEV && globalConfig.debug.instantBelts\<close>),
  and the state of the collaborators.\<close>

record 's root =
  gameInitialized :: bool
  entities :: "uid \<Rightarrow> 's entity"
  getTileContent :: "vector \<Rightarrow> uid option"
  allEntities :: "uid list"
  areaToRecompute :: "rectangle option"
  beltBaseSpeed :: real
  undergroundBeltBaseSpeed :: real
  itemSpacingOnBelts :: real
  deltaSeconds :: real
  instantBelts :: bool
  ext :: 's

subsection \<open>checkForCacheInvalidation\<close>

definition checkForCacheInvalidation :: "'s entity \<Rightarrow> 's root \<Rightarrow> 's root" where
  "checkForCacheInvalidation ent r =
     (if \<not> gameInitialized r then r
      else case StaticMapEntity ent of
        None \<Rightarrow> r
      | Some staticComp \<Rightarrow>
          (let bounds = getTileSpaceBounds staticComp;
               expandedBounds = expandedInAllDirections bounds 2
           in case areaToRecompute r of
                Some area \<Rightarrow> r\<lparr>areaToRecompute := Some (getUnion area expandedBounds)\<rparr>
              | None \<Rightarrow> r\<lparr>areaToRecompute := Some expandedBounds\<rparr>))"

text \<open>A batch of signals, oldest first.\<close>

fun notifyAll :: "'s entity list \<Rightarrow> 's root \<Rightarrow> 's root" where
  "notifyAll [] r = r"
| "notifyAll (ent # ents) r = notifyAll ents (checkForCacheInvalidation ent r)"

subsection \<open>tryPassOverItem\<close>

text \<open>Modelled from the spec: the global \<^verbatim>\<open>assert\<close> is not among the sources; the spec
  calls a failed assertion a fatal precondition failure, so it raises.\<close>

definition assert :: "bool \<Rightarrow> string \<Rightarrow> error + unit" where
  "assert cond msg = (if cond then Inr () else Inl (AssertionError msg))"

text \<open>The function is a sequence of five blocks, one for each capability; a block that
  does not return \<^verbatim>\<open>true\<close> falls through to the next one. Each definition below is
  one block together with everything after it. In the belt block the call
  \<^verbatim>\<open>path.tryAcceptItem\<close> on an absent path would raise; the assertion before it
  raises first.\<close>

definition passEnergyGenerator :: "'s root \<Rightarrow> item \<Rightarrow> 's entity \<Rightarrow> bool \<times> 's root" where
  "passEnergyGenerator r it receiver =
     (case EnergyGenerator receiver of
        Some energyGeneratorComp \<Rightarrow>
          (case generatorTryTakeItem energyGeneratorComp it (ext r) of
             (True, s) \<Rightarrow> (True, r\<lparr>ext := s\<rparr>)
           | (False, s) \<Rightarrow> (False, r\<lparr>ext := s\<rparr>))
      | None \<Rightarrow> (False, r))"

definition passUndergroundBelt :: "'s root \<Rightarrow> item \<Rightarrow> 's entity \<Rightarrow> bool \<times> 's root" where
  "passUndergroundBelt r it receiver =
     (case UndergroundBelt receiver of
        Some undergroundBeltComp \<Rightarrow>
          (case tryAcceptExternalItem undergroundBeltComp it (undergroundBeltBaseSpeed r) (ext r) of
             (True, s) \<Rightarrow> (True, r\<lparr>ext := s\<rparr>)
           | (False, s) \<Rightarrow> passEnergyGenerator (r\<lparr>ext := s\<rparr>) it receiver)
      | None \<Rightarrow> passEnergyGenerator r it receiver)"

definition passItemProcessor :: "'s root \<Rightarrow> item \<Rightarrow> 's entity \<Rightarrow> nat \<Rightarrow> bool \<times> 's root" where
  "passItemProcessor r it receiver slotIndex =
     (case ItemProcessor receiver of
        Some itemProcessorComp \<Rightarrow>
          (case processorTryTakeItem itemProcessorComp it slotIndex (ext r) of
             (True, s) \<Rightarrow> (True, r\<lparr>ext := s\<rparr>)
           | (False, s) \<Rightarrow> passUndergroundBelt (r\<lparr>ext := s\<rparr>) it receiver)
      | None \<Rightarrow> passUndergroundBelt r it receiver)"

definition passStorage :: "'s root \<Rightarrow> item \<Rightarrow> 's entity \<Rightarrow> nat \<Rightarrow> bool \<times> 's root" where
  "passStorage r it receiver slotIndex =
     (case Storage receiver of
        Some storageComp \<Rightarrow>
          if storageCanAcceptItem storageComp it (ext r)
          then (True, r\<lparr>ext := takeItem storageComp it (ext r)\<rparr>)
          else passItemProcessor r it receiver slotIndex
      | None \<Rightarrow> passItemProcessor r it receiver slotIndex)"

definition tryPassOverItem :: "'s root \<Rightarrow> item \<Rightarrow> 's entity \<Rightarrow> nat \<Rightarrow> error + (bool \<times> 's root)" where
  "tryPassOverItem r it receiver slotIndex =
     (case Belt receiver of
        Some beltComp \<Rightarrow>
          (case assert (assignedPath beltComp \<noteq> None) ''belt has no path'' of
             Inl e \<Rightarrow> Inl e
           | Inr _ \<Rightarrow>
               (case assignedPath beltComp of
                  None \<Rightarrow> Inl TypeError
                | Some path \<Rightarrow>
                    (case path it (ext r) of
                       (True, s) \<Rightarrow> Inr (True, r\<lparr>ext := s\<rparr>)
                     | (False, s) \<Rightarrow>
                         Inr (passStorage (r\<lparr>ext := s\<rparr>) it receiver slotIndex))))
      | None \<Rightarrow> Inr (passStorage r it receiver slotIndex))"

subsection \<open>recomputeSingleEntityCache\<close>

text \<open>One round of the loop over the slots. \<open>ejectorComp\<close> is the component being rewritten,
  \<open>staticComp\<close> the \<^verbatim>\<open>StaticMapEntity\<close> of the same entity (\<^verbatim>\<open>undefined\<close> when the
  entity has none: the first method call on it raises). The grid and the components of the
  target are read from \<open>r\<close>; the function writes none of them.\<close>

definition recomputeSlot ::
  "'s root \<Rightarrow> staticMapEntityComponent option \<Rightarrow> nat \<Rightarrow> itemEjectorComponent
     \<Rightarrow> error + itemEjectorComponent" where
  "recomputeSlot r staticComp ejectorSlotIndex ejectorComp =
     (let ejectorSlot = slots ejectorComp ! ejectorSlotIndex;
          cleared = ejectorSlot\<lparr>cachedDestSlot := None, cachedTargetEntity := None\<rparr>;
          ejectorComp1 = ejectorComp\<lparr>slots := (slots ejectorComp)[ejectorSlotIndex := cleared]\<rparr>
      in case staticComp of
        None \<Rightarrow> Inl TypeError
      | Some sc \<Rightarrow>
         (let ejectSlotWsTile = localTileToWorld sc (pos ejectorSlot);
              ejectSlotWsDirection = localDirectionToWorld sc (direction ejectorSlot);
              ejectSlotWsDirectionVector = enumDirectionToVector ejectSlotWsDirection;
              ejectSlotTargetWsTile = vec_add ejectSlotWsTile ejectSlotWsDirectionVector
          in case getTileContent r ejectSlotTargetWsTile of
            None \<Rightarrow> Inr ejectorComp1
          | Some targetEntity \<Rightarrow>
             (case ItemAcceptor (entities r targetEntity) of
                None \<Rightarrow> Inr ejectorComp1
              | Some targetAcceptorComp \<Rightarrow>
                 (case StaticMapEntity (entities r targetEntity) of
                    None \<Rightarrow> Inl TypeError
                  | Some targetStaticComp \<Rightarrow>
                     (case findMatchingSlot targetAcceptorComp
                             (worldToLocalTile targetStaticComp ejectSlotTargetWsTile)
                             (worldDirectionToLocal targetStaticComp ejectSlotWsDirection) of
                        None \<Rightarrow> Inr ejectorComp1
                      | Some matchingSlot \<Rightarrow>
                          Inr (ejectorComp1
                            \<lparr>slots := (slots ejectorComp1)[ejectorSlotIndex :=
                                 cleared\<lparr>cachedDestSlot := Some matchingSlot,
                                         cachedTargetEntity := Some targetEntity\<rparr>],
                             cachedConnectedSlots :=
                               (case cachedConnectedSlots ejectorComp1 of
                                  Some cached \<Rightarrow> Some (cached @ [ejectorSlotIndex])
                                | None \<Rightarrow> Some [ejectorSlotIndex])\<rparr>))))))"

fun recomputeSlots ::
  "'s root \<Rightarrow> staticMapEntityComponent option \<Rightarrow> nat list \<Rightarrow> itemEjectorComponent
     \<Rightarrow> error + itemEjectorComponent" where
  "recomputeSlots r staticComp [] ejectorComp = Inr ejectorComp"
| "recomputeSlots r staticComp (i # rest) ejectorComp =
     (case recomputeSlot r staticComp i ejectorComp of
        Inl e \<Rightarrow> Inl e
      | Inr ejectorComp' \<Rightarrow> recomputeSlots r staticComp rest ejectorComp')"

definition recomputeSingleEntityCache :: "uid \<Rightarrow> 's root \<Rightarrow> error + 's root" where
  "recomputeSingleEntityCache e r =
     (case ItemEjector (entities r e) of
        None \<Rightarrow> Inl TypeError
      | Some ejectorComp \<Rightarrow>
         (case recomputeSlots r (StaticMapEntity (entities r e))
                 [0 ..< length (slots ejectorComp)]
                 (ejectorComp\<lparr>cachedConnectedSlots := None\<rparr>) of
            Inl err \<Rightarrow> Inl err
          | Inr ejectorComp' \<Rightarrow>
              Inr (r\<lparr>entities := (entities r)(e := (entities r e)\<lparr>ItemEjector := Some ejectorComp'\<rparr>)\<rparr>)))"

subsection \<open>recomputeAreaCache and recomputeCache\<close>

text \<open>The tiles in the order the two nested loops visit them.\<close>

definition areaTiles :: "rectangle \<Rightarrow> vector list" where
  "areaTiles area =
     concat (map (\<lambda>x. map (\<lambda>y. (x, y)) [rect_y area .. rect_bottom area - 1])
                 [rect_x area .. rect_right area - 1])"

text \<open>The loop body, with the set \<^verbatim>\<open>recomputedEntities\<close> threaded through.\<close>

fun recomputeTiles :: "vector list \<Rightarrow> uid set \<Rightarrow> 's root \<Rightarrow> error + 's root" where
  "recomputeTiles [] recomputedEntities r = Inr r"
| "recomputeTiles (t # ts) recomputedEntities r =
     (case getTileContent r t of
        None \<Rightarrow> recomputeTiles ts recomputedEntities r
      | Some e \<Rightarrow>
          if e \<notin> recomputedEntities \<and> ItemEjector (entities r e) \<noteq> None
          then (case recomputeSingleEntityCache e r of
                  Inl err \<Rightarrow> Inl err
                | Inr r' \<Rightarrow> recomputeTiles ts (insert e recomputedEntities) r')
          else recomputeTiles ts recomputedEntities r)"

text \<open>The function returns \<^verbatim>\<open>entryCount\<close>, which is always 0 and which no caller reads;
  the model returns the state.\<close>

definition recomputeAreaCache :: "rectangle \<Rightarrow> 's root \<Rightarrow> error + 's root" where
  "recomputeAreaCache area r = recomputeTiles (areaTiles area) {} r"

fun recomputeEntities :: "uid list \<Rightarrow> 's root \<Rightarrow> error + 's root" where
  "recomputeEntities [] r = Inr r"
| "recomputeEntities (e # es) r =
     (case recomputeSingleEntityCache e r of
        Inl err \<Rightarrow> Inl err
      | Inr r' \<Rightarrow> recomputeEntities es r')"

definition recomputeCache :: "'s root \<Rightarrow> error + 's root" where
  "recomputeCache r =
     (case areaToRecompute r of
        Some area \<Rightarrow>
          (case recomputeAreaCache area r of
             Inl err \<Rightarrow> Inl err
           | Inr r' \<Rightarrow> Inr (r'\<lparr>areaToRecompute := None\<rparr>))
      | None \<Rightarrow> recomputeEntities (allEntities r) r)"

subsection \<open>update\<close>

definition progressGrowth :: "'s root \<Rightarrow> real" where
  "progressGrowth r =
     (if instantBelts r then 1
      else (beltBaseSpeed r * itemSpacingOnBelts r / 0.5) * deltaSeconds r)"

text \<open>A write to a field of the slot object \<open>k\<close> of the ejector component of entity \<open>u\<close>.\<close>

definition modifySlot :: "uid \<Rightarrow> nat \<Rightarrow> (ejectorSlot \<Rightarrow> ejectorSlot) \<Rightarrow> 's root \<Rightarrow> 's root" where
  "modifySlot u k f r =
     (case ItemEjector (entities r u) of
        None \<Rightarrow> r
      | Some ec \<Rightarrow>
          r\<lparr>entities := (entities r)(u := (entities r u)
               \<lparr>ItemEjector := Some (ec\<lparr>slots := (slots ec)[k := f (slots ec ! k)]\<rparr>)\<rparr>)\<rparr>)"

text \<open>The body of the inner loop for the slot reference \<open>k\<close> found in the cache of
  \<open>sourceEntity\<close>. A reference in \<^verbatim>\<open>cachedConnectedSlots\<close> always points to a slot
  object; an index outside \<^verbatim>\<open>slots\<close> stands for no object and raises at the first
  field read.\<close>

definition updateSlot :: "real \<Rightarrow> uid \<Rightarrow> nat \<Rightarrow> 's root \<Rightarrow> error + 's root" where
  "updateSlot growth sourceEntity k r =
     (case ItemEjector (entities r sourceEntity) of
        None \<Rightarrow> Inl TypeError
      | Some sourceEjectorComp \<Rightarrow>
          if length (slots sourceEjectorComp) \<le> k then Inl TypeError
          else
            (let sourceSlot = slots sourceEjectorComp ! k;
                 destSlot = cachedDestSlot sourceSlot;
                 targetEntity = cachedTargetEntity sourceSlot
             in case item sourceSlot of
               None \<Rightarrow> Inr r
             | Some it \<Rightarrow>
                (let p = min 1 (progress sourceSlot + growth);
                     r1 = modifySlot sourceEntity k (\<lambda>s. s\<lparr>progress := p\<rparr>) r
                 in if p < 1 then Inr r1
                    else
                      (case targetEntity of
                         None \<Rightarrow> Inl TypeError
                       | Some target \<Rightarrow>
                          (case ItemAcceptor (entities r1 target) of
                             None \<Rightarrow> Inl TypeError
                           | Some targetAcceptorComp \<Rightarrow>
                              (case destSlot of
                                 None \<Rightarrow> Inl TypeError
                               | Some dest \<Rightarrow>
                                  if \<not> canAcceptItem targetAcceptorComp (index dest) it (ext r1)
                                  then Inr r1
                                  else
                                    (case tryPassOverItem r1 it (entities r1 target) (index dest) of
                                       Inl err \<Rightarrow> Inl err
                                     | Inr (True, r2) \<Rightarrow>
                                         Inr (modifySlot sourceEntity k (\<lambda>s. s\<lparr>item := None\<rparr>)
                                                (r2\<lparr>ext := onItemAccepted targetAcceptorComp (index dest)
                                                              (acceptedDirection dest) it (ext r2)\<rparr>))
                                     | Inr (False, r2) \<Rightarrow> Inr r2)))))))"

fun updateSlots :: "real \<Rightarrow> uid \<Rightarrow> nat list \<Rightarrow> 's root \<Rightarrow> error + 's root" where
  "updateSlots growth sourceEntity [] r = Inr r"
| "updateSlots growth sourceEntity (k # ks) r =
     (case updateSlot growth sourceEntity k r of
        Inl err \<Rightarrow> Inl err
      | Inr r' \<Rightarrow> updateSlots growth sourceEntity ks r')"

text \<open>The body of the outer loop. No statement of the inner loop writes
  \<^verbatim>\<open>cachedConnectedSlots\<close>, so the array is read once.\<close>

definition updateEntity :: "real \<Rightarrow> uid \<Rightarrow> 's root \<Rightarrow> error + 's root" where
  "updateEntity growth sourceEntity r =
     (case ItemEjector (entities r sourceEntity) of
        None \<Rightarrow> Inl TypeError
      | Some sourceEjectorComp \<Rightarrow>
         (case cachedConnectedSlots sourceEjectorComp of
            None \<Rightarrow> Inr r
          | Some cached \<Rightarrow> updateSlots growth sourceEntity cached r))"

fun updateEntities :: "real \<Rightarrow> uid list \<Rightarrow> 's root \<Rightarrow> error + 's root" where
  "updateEntities growth [] r = Inr r"
| "updateEntities growth (e # es) r =
     (case updateEntity growth e r of
        Inl err \<Rightarrow> Inl err
      | Inr r' \<Rightarrow> updateEntities growth es r')"

definition update :: "'s root \<Rightarrow> error + 's root" where
  "update r =
     (case (if areaToRecompute r \<noteq> None then recomputeCache r else Inr r) of
        Inl err \<Rightarrow> Inl err
      | Inr r1 \<Rightarrow> updateEntities (progressGrowth r1) (allEntities r1) r1)"

subsection \<open>Specification-level definitions and proof vocabulary\<close>

text \<open>The handover dispatcher as the spec words it: the capabilities present on the receiver,
  in the fixed priority order belt path, storage, item processor, underground belt, energy
  generator, each as an attempt on the collaborator state; and the attempt list tried in
  order until the first one accepts. A storage attempt is its check
  \<^verbatim>\<open>canAcceptItem\<close> followed by \<^verbatim>\<open>takeItem\<close>.\<close>

definition presentCapabilities :: "'s root \<Rightarrow> item \<Rightarrow> 's entity \<Rightarrow> nat \<Rightarrow> ('s \<Rightarrow> bool \<times> 's) list" where
  "presentCapabilities r it receiver slotIndex =
     (case Belt receiver of
        Some beltComp \<Rightarrow> (case assignedPath beltComp of Some path \<Rightarrow> [path it] | None \<Rightarrow> [])
      | None \<Rightarrow> [])
     @ (case Storage receiver of
          Some storageComp \<Rightarrow>
            [\<lambda>s. if storageCanAcceptItem storageComp it s
                 then (True, takeItem storageComp it s) else (False, s)]
        | None \<Rightarrow> [])
     @ (case ItemProcessor receiver of
          Some itemProcessorComp \<Rightarrow> [processorTryTakeItem itemProcessorComp it slotIndex]
        | None \<Rightarrow> [])
     @ (case UndergroundBelt receiver of
          Some undergroundBeltComp \<Rightarrow>
            [tryAcceptExternalItem undergroundBeltComp it (undergroundBeltBaseSpeed r)]
        | None \<Rightarrow> [])
     @ (case EnergyGenerator receiver of
          Some energyGeneratorComp \<Rightarrow> [generatorTryTakeItem energyGeneratorComp it]
        | None \<Rightarrow> [])"

fun firstAccepting :: "('s \<Rightarrow> bool \<times> 's) list \<Rightarrow> 's \<Rightarrow> bool \<times> 's" where
  "firstAccepting [] s = (False, s)"
| "firstAccepting (c # cs) s =
     (case c s of (True, s') \<Rightarrow> (True, s') | (False, s') \<Rightarrow> firstAccepting cs s')"

text \<open>Proof vocabulary for \<^verbatim>\<open>tryPassOverItem\<close>: the result pair with the collaborator
  state put back into the root, the tails of the capability list that the blocks of the
  function correspond to, and the failing precondition of the belt block.\<close>

definition withExt :: "'s root \<Rightarrow> bool \<times> 's \<Rightarrow> bool \<times> 's root" where
  "withExt r p = (fst p, r\<lparr>ext := snd p\<rparr>)"

definition generatorCaps :: "item \<Rightarrow> 's entity \<Rightarrow> ('s \<Rightarrow> bool \<times> 's) list" where
  "generatorCaps it rc = (case EnergyGenerator rc of
          Some c \<Rightarrow> [generatorTryTakeItem c it] | None \<Rightarrow> []) @ []"

definition undergroundCaps :: "'s root \<Rightarrow> item \<Rightarrow> 's entity \<Rightarrow> ('s \<Rightarrow> bool \<times> 's) list" where
  "undergroundCaps r it rc = (case UndergroundBelt rc of
          Some c \<Rightarrow> [tryAcceptExternalItem c it (undergroundBeltBaseSpeed r)] | None \<Rightarrow> [])
       @ generatorCaps it rc"

definition processorCaps :: "'s root \<Rightarrow> item \<Rightarrow> 's entity \<Rightarrow> nat \<Rightarrow> ('s \<Rightarrow> bool \<times> 's) list" where
  "processorCaps r it rc k = (case ItemProcessor rc of
          Some c \<Rightarrow> [processorTryTakeItem c it k] | None \<Rightarrow> [])
       @ undergroundCaps r it rc"

definition storageCaps :: "'s root \<Rightarrow> item \<Rightarrow> 's entity \<Rightarrow> nat \<Rightarrow> ('s \<Rightarrow> bool \<times> 's) list" where
  "storageCaps r it rc k = (case Storage rc of
          Some c \<Rightarrow> [\<lambda>s. if storageCanAcceptItem c it s
                 then (True, takeItem c it s) else (False, s)] | None \<Rightarrow> [])
       @ processorCaps r it rc k"

definition beltBroken :: "'s entity \<Rightarrow> bool" where
  "beltBroken rc \<longleftrightarrow> (\<exists>b. Belt rc = Some b \<and> assignedPath b = None)"

text \<open>Proof vocabulary for the cache builder. \<open>slotTarget\<close> is the part of one loop round of
  \<^verbatim>\<open>recomputeSingleEntityCache\<close> that finds the target (lines 131 to 159): an exception,
  no target, or the target entity with the matching slot. \<open>setCache\<close> writes that result
  into the cache fields of a slot, \<open>slotResult\<close> reads an exception as no target, and
  \<open>appendCache\<close> pushes indices onto \<^verbatim>\<open>cachedConnectedSlots\<close> (creating the array at the
  first push).\<close>

definition slotTarget ::
  "'s root \<Rightarrow> staticMapEntityComponent option \<Rightarrow> ejectorSlot \<Rightarrow> error + (uid \<times> matchingSlot) option" where
  "slotTarget r staticComp ejectorSlot =
     (case staticComp of
        None \<Rightarrow> Inl TypeError
      | Some sc \<Rightarrow>
         (let ejectSlotWsTile = localTileToWorld sc (pos ejectorSlot);
              ejectSlotWsDirection = localDirectionToWorld sc (direction ejectorSlot);
              ejectSlotTargetWsTile =
                vec_add ejectSlotWsTile (enumDirectionToVector ejectSlotWsDirection)
          in case getTileContent r ejectSlotTargetWsTile of
            None \<Rightarrow> Inr None
          | Some targetEntity \<Rightarrow>
             (case ItemAcceptor (entities r targetEntity) of
                None \<Rightarrow> Inr None
              | Some targetAcceptorComp \<Rightarrow>
                 (case StaticMapEntity (entities r targetEntity) of
                    None \<Rightarrow> Inl TypeError
                  | Some targetStaticComp \<Rightarrow>
                     (case findMatchingSlot targetAcceptorComp
                             (worldToLocalTile targetStaticComp ejectSlotTargetWsTile)
                             (worldDirectionToLocal targetStaticComp ejectSlotWsDirection) of
                        None \<Rightarrow> Inr None
                      | Some matchingSlot \<Rightarrow> Inr (Some (targetEntity, matchingSlot)))))))"

fun setCache :: "(uid \<times> matchingSlot) option \<Rightarrow> ejectorSlot \<Rightarrow> ejectorSlot" where
  "setCache None slot = slot\<lparr>cachedDestSlot := None, cachedTargetEntity := None\<rparr>"
| "setCache (Some (t, m)) slot = slot\<lparr>cachedDestSlot := Some m, cachedTargetEntity := Some t\<rparr>"

definition slotResult ::
  "'s root \<Rightarrow> staticMapEntityComponent option \<Rightarrow> ejectorSlot \<Rightarrow> (uid \<times> matchingSlot) option" where
  "slotResult r staticComp ejectorSlot =
     (case slotTarget r staticComp ejectorSlot of Inl _ \<Rightarrow> None | Inr x \<Rightarrow> x)"

definition appendCache :: "nat list option \<Rightarrow> nat list \<Rightarrow> nat list option" where
  "appendCache c l = (if l = [] then c else Some ((case c of None \<Rightarrow> [] | Some c' \<Rightarrow> c') @ l))"

text \<open>The closed form of a completed recomputation of one entity, the condition under which
  the recomputation raises, and the recomputation of a set of entities at once, to which
  the loops of \<^verbatim>\<open>recomputeAreaCache\<close> and \<^verbatim>\<open>recomputeCache\<close> are proved equal.
  \<open>staticEq\<close> relates two worlds with the same grid, placements and acceptors: all that
  the cache builder reads. \<open>ejectorsOn r T\<close> are the entities with an ejector that stand on
  a tile of \<open>T\<close>.\<close>

definition canonicalEjector ::
  "'s root \<Rightarrow> staticMapEntityComponent option \<Rightarrow> itemEjectorComponent \<Rightarrow> itemEjectorComponent" where
  "canonicalEjector r sco ec =
     \<lparr>slots = map (\<lambda>s. setCache (slotResult r sco s) s) (slots ec),
      cachedConnectedSlots = appendCache None
        (filter (\<lambda>i. slotResult r sco (slots ec ! i) \<noteq> None) [0..<length (slots ec)])\<rparr>"

definition recomputedEntity :: "'s root \<Rightarrow> 's entity \<Rightarrow> 's entity" where
  "recomputedEntity r ent =
     ent\<lparr>ItemEjector := map_option (canonicalEjector r (StaticMapEntity ent)) (ItemEjector ent)\<rparr>"

definition recomputeFails :: "'s root \<Rightarrow> 's entity \<Rightarrow> bool" where
  "recomputeFails r ent \<longleftrightarrow>
     (case ItemEjector ent of
        None \<Rightarrow> True
      | Some ec \<Rightarrow> \<exists>s \<in> set (slots ec). isl (slotTarget r (StaticMapEntity ent) s))"

definition staticEq :: "'s root \<Rightarrow> 's root \<Rightarrow> bool" where
  "staticEq r r' \<longleftrightarrow>
     getTileContent r' = getTileContent r \<and>
     (\<forall>u. StaticMapEntity (entities r' u) = StaticMapEntity (entities r u) \<and>
          ItemAcceptor (entities r' u) = ItemAcceptor (entities r u))"

definition recomputeSet :: "uid set \<Rightarrow> 's root \<Rightarrow> error + 's root" where
  "recomputeSet V r =
     (if \<exists>u \<in> V. recomputeFails r (entities r u) then Inl TypeError
      else Inr (r\<lparr>entities :=
                  (\<lambda>u. if u \<in> V then recomputedEntity r (entities r u) else entities r u)\<rparr>))"

definition ejectorsOn :: "'s root \<Rightarrow> vector set \<Rightarrow> uid set" where
  "ejectorsOn r T = {u. ItemEjector (entities r u) \<noteq> None \<and> (\<exists>t \<in> T. getTileContent r t = Some u)}"

text \<open>Proof vocabulary for \<^verbatim>\<open>update\<close>. \<open>slotAt r u k\<close> is the slot object \<open>k\<close> of entity
  \<open>u\<close>, when there is one, and \<open>cacheOf r u\<close> its \<^verbatim>\<open>cachedConnectedSlots\<close>.
  \<open>slotFrame\<close>, \<open>sameCapabilities\<close> and \<open>rootFrame\<close> say what the transfer loop never
  writes: everything but the item and the progress of the slots and the state of the
  collaborators.\<close>

definition slotAt :: "'s root \<Rightarrow> uid \<Rightarrow> nat \<Rightarrow> ejectorSlot option" where
  "slotAt r u k =
     (case ItemEjector (entities r u) of
        None \<Rightarrow> None
      | Some ec \<Rightarrow> if k < length (slots ec) then Some (slots ec ! k) else None)"

definition slotFrame :: "ejectorSlot \<Rightarrow> ejectorSlot \<Rightarrow> bool" where
  "slotFrame s s' \<longleftrightarrow>
     pos s' = pos s \<and> direction s' = direction s \<and>
     cachedDestSlot s' = cachedDestSlot s \<and> cachedTargetEntity s' = cachedTargetEntity s"

definition cacheOf :: "'s root \<Rightarrow> uid \<Rightarrow> nat list option" where
  "cacheOf r u = (case ItemEjector (entities r u) of None \<Rightarrow> None | Some ec \<Rightarrow> cachedConnectedSlots ec)"

definition sameCapabilities :: "'s entity \<Rightarrow> 's entity \<Rightarrow> bool" where
  "sameCapabilities ent ent' \<longleftrightarrow>
     StaticMapEntity ent' = StaticMapEntity ent \<and> ItemAcceptor ent' = ItemAcceptor ent \<and>
     Belt ent' = Belt ent \<and> Storage ent' = Storage ent \<and>
     ItemProcessor ent' = ItemProcessor ent \<and> UndergroundBelt ent' = UndergroundBelt ent \<and>
     EnergyGenerator ent' = EnergyGenerator ent \<and>
     (ItemEjector ent' = None \<longleftrightarrow> ItemEjector ent = None)"

definition rootFrame :: "'s root \<Rightarrow> 's root \<Rightarrow> bool" where
  "rootFrame r r' \<longleftrightarrow>
     gameInitialized r' = gameInitialized r \<and> getTileContent r' = getTileContent r \<and>
     allEntities r' = allEntities r \<and> areaToRecompute r' = areaToRecompute r \<and>
     beltBaseSpeed r' = beltBaseSpeed r \<and>
     undergroundBeltBaseSpeed r' = undergroundBeltBaseSpeed r \<and>
     itemSpacingOnBelts r' = itemSpacingOnBelts r \<and> deltaSeconds r' = deltaSeconds r \<and>
     instantBelts r' = instantBelts r \<and>
     (\<forall>u. sameCapabilities (entities r u) (entities r' u) \<and> cacheOf r' u = cacheOf r u) \<and>
     (\<forall>u k. rel_option slotFrame (slotAt r u k) (slotAt r' u k))"

text \<open>\<open>D\<close> stands for a set of states of the collaborators. \<open>collaboratorsKeep r D\<close>:
  no attempt of a capability and no \<^verbatim>\<open>onItemAccepted\<close> of an entity of \<open>r\<close> leads
  out of \<open>D\<close>. \<open>handed D r s it\<close>: in a state \<open>x\<close> of \<open>D\<close> the acceptor of the cached
  target of slot \<open>s\<close> accepts the item \<open>it\<close> into the cached destination slot and
  \<^verbatim>\<open>tryPassOverItem\<close> on that target returns \<^verbatim>\<open>true\<close>. \<open>slotStep\<close> is the effect of
  one round of the inner loop of \<^verbatim>\<open>update\<close> on its slot, \<open>slotMany\<close> what any number
  of rounds preserve, and \<open>tickRel\<close> the same for all slots of a world whose collaborators
  start in \<open>D\<close> and keep it.\<close>

definition collaboratorsKeep :: "'s root \<Rightarrow> ('s \<Rightarrow> bool) \<Rightarrow> bool" where
  "collaboratorsKeep r D \<longleftrightarrow>
     (\<forall>u it k x. D x \<longrightarrow>
        (\<forall>c \<in> set (presentCapabilities r it (entities r u) k). D (snd (c x))) \<and>
        (\<forall>acc d. ItemAcceptor (entities r u) = Some acc \<longrightarrow> D (onItemAccepted acc k d it x)))"

definition handed :: "('s \<Rightarrow> bool) \<Rightarrow> 's root \<Rightarrow> ejectorSlot \<Rightarrow> item \<Rightarrow> bool" where
  "handed D r s it \<longleftrightarrow>
     (\<exists>t acc dest x r2. D x \<and> cachedTargetEntity s = Some t \<and>
        ItemAcceptor (entities r t) = Some acc \<and>
        cachedDestSlot s = Some dest \<and> canAcceptItem acc (index dest) it x \<and>
        tryPassOverItem (r\<lparr>ext := x\<rparr>) it (entities r t) (index dest) = Inr (True, r2))"


definition slotMany :: "('s \<Rightarrow> bool) \<Rightarrow> real \<Rightarrow> 's root \<Rightarrow> ejectorSlot \<Rightarrow> ejectorSlot \<Rightarrow> bool" where
  "slotMany D g r s s' \<longleftrightarrow>
     slotFrame s s' \<and> (item s = None \<longrightarrow> s' = s) \<and>
     (item s' = item s \<or>
      (item s' = None \<and> progress s' = 1 \<and> (\<exists>it. item s = Some it \<and> handed D r s it))) \<and>
     (0 \<le> g \<and> progress s \<le> 1 \<longrightarrow> progress s \<le> progress s' \<and> progress s' \<le> 1)"

definition tickRel :: "('s \<Rightarrow> bool) \<Rightarrow> real \<Rightarrow> 's root \<Rightarrow> 's root \<Rightarrow> bool" where
  "tickRel D g r r' \<longleftrightarrow>
     rootFrame r r' \<and>
     (D (ext r) \<and> collaboratorsKeep r D \<longrightarrow>
        D (ext r') \<and>
        (\<forall>u j s. slotAt r u j = Some s \<longrightarrow>
           (\<exists>s'. slotAt r' u j = Some s' \<and> slotMany D g r s s')))"



text \<open>The connectivity cache builder as the spec words it. The target tile of a slot is its
  world position plus the unit vector of its world direction. A slot has a match when that
  tile has an occupant, the occupant has an acceptor, and \<^verbatim>\<open>findMatchingSlot\<close>, called
  with the tile and the direction in the local space of the occupant, returns a slot.
  \<open>recomputeForEntity\<close> is the component after the recomputation: every slot with its
  cache fields cleared, or set to the match when there is one, and the slots that have a
  match, in slot order, as \<^verbatim>\<open>cachedConnectedSlots\<close> (\<^verbatim>\<open>null\<close> when there is none).\<close>

definition slotTargetTile :: "staticMapEntityComponent \<Rightarrow> ejectorSlot \<Rightarrow> vector" where
  "slotTargetTile sc s =
     vec_add (localTileToWorld sc (pos s))
             (enumDirectionToVector (localDirectionToWorld sc (direction s)))"

definition matchFor ::
  "'s root \<Rightarrow> staticMapEntityComponent \<Rightarrow> ejectorSlot \<Rightarrow> (uid \<times> matchingSlot) option" where
  "matchFor r sc s =
     (case getTileContent r (slotTargetTile sc s) of
        None \<Rightarrow> None
      | Some occupant \<Rightarrow>
         (case ItemAcceptor (entities r occupant) of
            None \<Rightarrow> None
          | Some acceptor \<Rightarrow>
             (case StaticMapEntity (entities r occupant) of
                None \<Rightarrow> None
              | Some occupantStatic \<Rightarrow>
                  map_option (Pair occupant)
                    (findMatchingSlot acceptor
                       (worldToLocalTile occupantStatic (slotTargetTile sc s))
                       (worldDirectionToLocal occupantStatic
                          (localDirectionToWorld sc (direction s)))))))"

definition recomputeForEntity ::
  "'s root \<Rightarrow> staticMapEntityComponent \<Rightarrow> itemEjectorComponent \<Rightarrow> itemEjectorComponent" where
  "recomputeForEntity r sc ec =
     \<lparr>slots = map (\<lambda>s. case matchFor r sc s of
                          None \<Rightarrow> s\<lparr>cachedDestSlot := None, cachedTargetEntity := None\<rparr>
                        | Some (target, m) \<Rightarrow>
                            s\<lparr>cachedDestSlot := Some m, cachedTargetEntity := Some target\<rparr>)
                  (slots ec),
      cachedConnectedSlots =
        (case filter (\<lambda>i. matchFor r sc (slots ec ! i) \<noteq> None) [0 ..< length (slots ec)] of
           [] \<Rightarrow> None
         | i # rest \<Rightarrow> Some (i # rest))\<rparr>"

text \<open>\<open>sameLoad\<close>: two slot values that differ at most in their cache fields.\<close>

definition sameLoad :: "ejectorSlot \<Rightarrow> ejectorSlot \<Rightarrow> bool" where
  "sameLoad s s' \<longleftrightarrow>
     pos s' = pos s \<and> direction s' = direction s \<and> item s' = item s \<and> progress s' = progress s"


text \<open>\<open>prepRel\<close>: what the recomputation at the start of \<^verbatim>\<open>update\<close> preserves.\<close>

definition prepRel :: "'s root \<Rightarrow> 's root \<Rightarrow> bool" where
  "prepRel r r1 \<longleftrightarrow>
     allEntities r1 = allEntities r \<and> progressGrowth r1 = progressGrowth r \<and>
     ext r1 = ext r \<and> undergroundBeltBaseSpeed r1 = undergroundBeltBaseSpeed r \<and>
     (\<forall>u. sameCapabilities (entities r u) (entities r1 u)) \<and>
     (\<forall>u j s. slotAt r u j = Some s \<longrightarrow> (\<exists>s1. slotAt r1 u j = Some s1 \<and> sameLoad s s1))"

text \<open>Modelled from the spec: placing and removing entities, the grid, and the registration
  of entities with the system (\<^verbatim>\<open>GameSystemWithFilter\<close>) are not among the sources.
  \<open>wellFormed\<close> is what they maintain: the entities registered with the system are the
  entities with an ejector that stand on the grid, and every ejector slot of a registered
  entity lies on a tile of its own entity.\<close>

definition wellFormed :: "'s root \<Rightarrow> bool" where
  "wellFormed r \<longleftrightarrow>
     (\<forall>u. u \<in> set (allEntities r) \<longleftrightarrow>
          ItemEjector (entities r u) \<noteq> None \<and> (\<exists>t. getTileContent r t = Some u)) \<and>
     (\<forall>u ec s. u \<in> set (allEntities r) \<and> ItemEjector (entities r u) = Some ec \<and>
          s \<in> set (slots ec) \<longrightarrow>
        (\<exists>sc. StaticMapEntity (entities r u) = Some sc \<and>
              getTileContent r (localTileToWorld sc (pos s)) = Some u))"

text \<open>Modelled from the spec: what adding or removing the entity \<open>ent\<close> does before the
  signal reaches the system. The grid changes only on tiles inside the tile-space bounds of
  \<open>ent\<close>; the objects that stood on the grid are not modified; the pending rectangle and
  the initialization flag are not touched; the world stays well formed.\<close>

definition gridEdit :: "'s entity \<Rightarrow> 's root \<Rightarrow> 's root \<Rightarrow> bool" where
  "gridEdit ent r r' \<longleftrightarrow>
     gameInitialized r' = gameInitialized r \<and> areaToRecompute r' = areaToRecompute r \<and>
     (\<forall>t. getTileContent r' t \<noteq> getTileContent r t \<longrightarrow>
          (\<exists>sc. StaticMapEntity ent = Some sc \<and> containsTile (getTileSpaceBounds sc) t)) \<and>
     (\<forall>u t. getTileContent r t = Some u \<longrightarrow> entities r' u = entities r u) \<and>
     wellFormed r'"

text \<open>The states reachable from \<open>r0\<close> by entity-added and entity-removed events, each an
  edit of the grid followed by the signal handler.\<close>

inductive afterEvents :: "'s root \<Rightarrow> 's root \<Rightarrow> bool" for r0 :: "'s root" where
  afterEvents_none: "afterEvents r0 r0"
| afterEvents_event:
    "afterEvents r0 r \<Longrightarrow> gridEdit ent r r1 \<Longrightarrow>
     afterEvents r0 (checkForCacheInvalidation ent r1)"

text \<open>A tile whose neighbourhood of radius 2 lies inside the pending rectangle.\<close>

definition inner :: "'s root \<Rightarrow> vector \<Rightarrow> bool" where
  "inner r t \<longleftrightarrow>
     (\<exists>a. areaToRecompute r = Some a \<and>
          (\<forall>t'. \<bar>fst t' - fst t\<bar> \<le> 2 \<and> \<bar>snd t' - snd t\<bar> \<le> 2 \<longrightarrow> containsTile a t'))"

subsection \<open>Example worlds\<close>

text \<open>An unrotated building of one tile at \<open>origin\<close>.\<close>

definition placedAt :: "vector \<Rightarrow> staticMapEntityComponent" where
  "placedAt origin =
     \<lparr>localTileToWorld = (\<lambda>p. vec_add origin p),
      localDirectionToWorld = (\<lambda>d. d),
      worldToLocalTile = (\<lambda>t. (fst t - fst origin, snd t - snd origin)),
      worldDirectionToLocal = (\<lambda>d. d),
      getTileSpaceBounds = Rectangle (fst origin) (snd origin) 1 1\<rparr>"

definition bare :: "'s entity" where
  "bare = \<lparr>StaticMapEntity = None, ItemEjector = None, ItemAcceptor = None, Belt = None,
           Storage = None, ItemProcessor = None, UndergroundBelt = None, EnergyGenerator = None\<rparr>"

definition exampleSlot :: ejectorSlot where
  "exampleSlot = \<lparr>pos = (0, 0), direction = DirRight, item = None, progress = 0,
                  cachedDestSlot = None, cachedTargetEntity = None\<rparr>"

text \<open>Entity 10: an ejector at tile (0, 0) with one slot that ejects to the east.\<close>

definition exampleEjector :: "nat entity" where
  "exampleEjector = bare\<lparr>StaticMapEntity := Some (placedAt (0, 0)),
                         ItemEjector := Some \<lparr>slots = [exampleSlot], cachedConnectedSlots = None\<rparr>\<rparr>"

text \<open>Entity 20: a storage at tile (1, 0) that accepts from the west into slot 0 and holds
  at most two items; the collaborator state is the number of stored items.\<close>

definition exampleAcceptor :: "nat entity" where
  "exampleAcceptor = bare
     \<lparr>StaticMapEntity := Some (placedAt (1, 0)),
      ItemAcceptor := Some
        \<lparr>findMatchingSlot = (\<lambda>t d. if t = (0, 0) \<and> d = DirRight
                                   then Some \<lparr>index = 0, acceptedDirection = DirLeft\<rparr> else None),
         canAcceptItem = (\<lambda>i it s. s < 2),
         onItemAccepted = (\<lambda>i d it s. s)\<rparr>,
      Storage := Some \<lparr>storageCanAcceptItem = (\<lambda>it s. s < 2), takeItem = (\<lambda>it s. s + 1)\<rparr>\<rparr>"

definition exampleRoot :: "nat root" where
  "exampleRoot =
     \<lparr>gameInitialized = True,
      entities = (\<lambda>u. if u = 10 then exampleEjector else if u = 20 then exampleAcceptor else bare),
      getTileContent = (\<lambda>t. if t = (0, 0) then Some 10 else if t = (1, 0) then Some 20 else None),
      allEntities = [10],
      areaToRecompute = None,
      beltBaseSpeed = 2, undergroundBeltBaseSpeed = 2, itemSpacingOnBelts = 1 / 4,
      deltaSeconds = 1 / 2, instantBelts = False, ext = 0\<rparr>"

definition connectedSlot :: ejectorSlot where
  "connectedSlot = exampleSlot\<lparr>cachedDestSlot := Some \<lparr>index = 0, acceptedDirection = DirLeft\<rparr>,
                     cachedTargetEntity := Some 20\<rparr>"

text \<open>The example world with the cache of entity 10 computed.\<close>

definition connectedRoot :: "nat root" where
  "connectedRoot = exampleRoot\<lparr>entities := (entities exampleRoot)
      (10 := exampleEjector\<lparr>ItemEjector :=
         Some \<lparr>slots = [connectedSlot], cachedConnectedSlots = Some [0]\<rparr>\<rparr>)\<rparr>"

text \<open>A receiver whose belt path declines every item and whose storage takes it, and a
  receiver whose belt has no path.\<close>

definition beltAndStorage :: "nat entity" where
  "beltAndStorage = bare
     \<lparr>Belt := Some \<lparr>assignedPath = Some (\<lambda>it s. (False, s))\<rparr>,
      Storage := Some \<lparr>storageCanAcceptItem = (\<lambda>it s. True), takeItem = (\<lambda>it s. s + 1)\<rparr>\<rparr>"

definition beltWithoutPath :: "nat entity" where
  "beltWithoutPath = bare\<lparr>Belt := Some \<lparr>assignedPath = None\<rparr>\<rparr>"

text \<open>The example world before entity 20 is placed: the tile east of the ejector is empty.\<close>

definition lonelyRoot :: "nat root" where
  "lonelyRoot = exampleRoot\<lparr>getTileContent := (\<lambda>t. if t = (0, 0) then Some 10 else None)\<rparr>"

text \<open>The connected example world with a given value of the slot of entity 10.\<close>

definition withSlot :: "ejectorSlot \<Rightarrow> nat root" where
  "withSlot sl = connectedRoot\<lparr>entities := (entities exampleRoot)
      (10 := exampleEjector\<lparr>ItemEjector :=
         Some \<lparr>slots = [sl], cachedConnectedSlots = Some [0]\<rparr>\<rparr>)\<rparr>"

text \<open>The same after entity 20 has left the grid, with the cache of entity 10 still
  pointing to it.\<close>

definition staleRoot :: "ejectorSlot \<Rightarrow> nat root" where
  "staleRoot sl = (withSlot sl)\<lparr>getTileContent := (\<lambda>t. if t = (0, 0) then Some 10 else None)\<rparr>"

text \<open>Slot values: an item halfway, an item that has arrived, and the slot after the handover.\<close>

definition halfwaySlot :: ejectorSlot where
  "halfwaySlot = connectedSlot\<lparr>item := Some 7, progress := 1 / 2\<rparr>"

definition arrivedSlot :: ejectorSlot where
  "arrivedSlot = connectedSlot\<lparr>item := Some 7, progress := 1\<rparr>"

definition emptiedSlot :: ejectorSlot where
  "emptiedSlot = connectedSlot\<lparr>item := None, progress := 1\<rparr>"

text \<open>The connected example world with the storage of entity 20 full.\<close>

definition fullRoot :: "ejectorSlot \<Rightarrow> nat root" where
  "fullRoot sl = (withSlot sl)\<lparr>ext := 2\<rparr>"


section \<open>Lemmas\<close>

subsection \<open>The handover dispatcher\<close>

lemma firstAccepting_opt:
  "firstAccepting ((case opt of Some c \<Rightarrow> [f c] | None \<Rightarrow> []) @ rest) s =
     (case opt of None \<Rightarrow> firstAccepting rest s
      | Some c \<Rightarrow> (case f c s of (True, s') \<Rightarrow> (True, s') | (False, s') \<Rightarrow> firstAccepting rest s'))"
  by (cases opt) simp_all

lemma withExt_simps [simp]:
  "withExt r (b, s) = (b, r\<lparr>ext := s\<rparr>)"
  "withExt (r\<lparr>ext := s'\<rparr>) p = withExt r p"
  by (simp_all add: withExt_def)

lemma undergroundCaps_ext [simp]: "undergroundCaps (r\<lparr>ext := s\<rparr>) it rc = undergroundCaps r it rc"
  by (simp add: undergroundCaps_def split: option.splits)

lemma processorCaps_ext [simp]: "processorCaps (r\<lparr>ext := s\<rparr>) it rc k = processorCaps r it rc k"
  by (simp add: processorCaps_def)

lemma storageCaps_ext [simp]: "storageCaps (r\<lparr>ext := s\<rparr>) it rc k = storageCaps r it rc k"
  by (simp add: storageCaps_def)

lemma passEnergyGenerator_eq:
  "passEnergyGenerator r it rc = withExt r (firstAccepting (generatorCaps it rc) (ext r))"
  unfolding generatorCaps_def firstAccepting_opt
  by (simp add: passEnergyGenerator_def withExt_def split: option.splits prod.splits bool.splits)

lemma passUndergroundBelt_eq:
  "passUndergroundBelt r it rc = withExt r (firstAccepting (undergroundCaps r it rc) (ext r))"
  unfolding undergroundCaps_def firstAccepting_opt
  by (simp add: passUndergroundBelt_def passEnergyGenerator_eq
      split: option.splits prod.splits bool.splits)

lemma passItemProcessor_eq:
  "passItemProcessor r it rc k = withExt r (firstAccepting (processorCaps r it rc k) (ext r))"
  unfolding processorCaps_def firstAccepting_opt
  by (simp add: passItemProcessor_def passUndergroundBelt_eq
      split: option.splits prod.splits bool.splits)

lemma passStorage_eq:
  "passStorage r it rc k = withExt r (firstAccepting (storageCaps r it rc k) (ext r))"
  unfolding storageCaps_def firstAccepting_opt
  by (simp add: passStorage_def passItemProcessor_eq
      split: option.splits prod.splits bool.splits)

lemma presentCapabilities_eq:
  "presentCapabilities r it rc k =
     (case Belt rc of
        Some beltComp \<Rightarrow> (case assignedPath beltComp of Some path \<Rightarrow> [path it] | None \<Rightarrow> [])
      | None \<Rightarrow> []) @ storageCaps r it rc k"
  by (simp add: presentCapabilities_def storageCaps_def processorCaps_def undergroundCaps_def
      generatorCaps_def)

lemma tryPassOverItem_eq:
  "tryPassOverItem r it rc k =
     (if beltBroken rc then Inl (AssertionError ''belt has no path'')
      else Inr (withExt r (firstAccepting (presentCapabilities r it rc k) (ext r))))"
  unfolding presentCapabilities_eq
  by (auto simp: tryPassOverItem_def assert_def passStorage_eq withExt_def beltBroken_def
      split: option.splits prod.splits bool.splits)

subsection \<open>Rectangles\<close>

lemma containsTile_getUnion:
  "containsTile a t \<or> containsTile b t \<Longrightarrow> containsTile (getUnion a b) t"
  by (auto simp: containsTile_def getUnion_def rect_right_def rect_bottom_def Let_def)

lemma containsTile_expanded:
  "containsTile (expandedInAllDirections b n) (x, y) \<longleftrightarrow>
     rect_x b - n \<le> x \<and> x < rect_right b + n \<and> rect_y b - n \<le> y \<and> y < rect_bottom b + n"
  by (auto simp: containsTile_def expandedInAllDirections_def rect_right_def rect_bottom_def)

subsection \<open>The loop of recomputeSingleEntityCache\<close>

lemma slotTarget_cong:
  "pos s' = pos s \<Longrightarrow> direction s' = direction s \<Longrightarrow> slotTarget r sco s' = slotTarget r sco s"
  by (simp add: slotTarget_def Let_def split: option.splits)

lemma setCache_static [simp]:
  "pos (setCache x s) = pos s" "direction (setCache x s) = direction s"
  "item (setCache x s) = item s" "progress (setCache x s) = progress s"
  by (cases "(x, s)" rule: setCache.cases; simp)+

lemma slotTarget_setCache [simp]: "slotTarget r sco (setCache x s) = slotTarget r sco s"
  by (rule slotTarget_cong) simp_all

lemma slotResult_setCache [simp]: "slotResult r sco (setCache x s) = slotResult r sco s"
  by (simp add: slotResult_def)

lemma recomputeSlot_eq:
  "recomputeSlot r sco i ec =
     (case slotTarget r sco (slots ec ! i) of
        Inl e \<Rightarrow> Inl TypeError
      | Inr x \<Rightarrow> Inr (ec\<lparr>slots := (slots ec)[i := setCache x (slots ec ! i)],
                       cachedConnectedSlots :=
                         appendCache (cachedConnectedSlots ec) (if x = None then [] else [i])\<rparr>))"
  by (auto simp: recomputeSlot_def slotTarget_def Let_def appendCache_def
      split: option.splits)

lemma appendCache_append: "appendCache (appendCache c a) b = appendCache c (a @ b)"
  by (auto simp: appendCache_def split: option.splits)

lemma recomputeSlots_upt:
  assumes "n = length (slots ec)" "k \<le> n"
  shows "recomputeSlots r sco [k..<n] ec =
     (if \<exists>i. k \<le> i \<and> i < n \<and> isl (slotTarget r sco (slots ec ! i)) then Inl TypeError
      else Inr \<lparr>slots = take k (slots ec) @
                       map (\<lambda>s. setCache (slotResult r sco s) s) (drop k (slots ec)),
               cachedConnectedSlots = appendCache (cachedConnectedSlots ec)
                 (filter (\<lambda>i. slotResult r sco (slots ec ! i) \<noteq> None) [k..<n])\<rparr>)"
  using assms
proof (induction "n - k" arbitrary: k ec)
  case 0
  then show ?case by (simp add: appendCache_def)
next
  case (Suc d)
  then have kn: "k < n" by simp
  let ?f = "\<lambda>s. setCache (slotResult r sco s) s"
  show ?case
  proof (cases "slotTarget r sco (slots ec ! k)")
    case (Inl e)
    then have "\<exists>i. k \<le> i \<and> i < n \<and> isl (slotTarget r sco (slots ec ! i))"
      using kn by (intro exI[of _ k]) simp
    then show ?thesis using kn Inl by (simp add: upt_conv_Cons recomputeSlot_eq)
  next
    case (Inr x)
    define ec' where "ec' = ec\<lparr>slots := (slots ec)[k := setCache x (slots ec ! k)],
                       cachedConnectedSlots :=
                         appendCache (cachedConnectedSlots ec) (if x = None then [] else [k])\<rparr>"
    have step: "recomputeSlots r sco [k..<n] ec = recomputeSlots r sco [Suc k..<n] ec'"
      using kn Inr by (simp add: upt_conv_Cons recomputeSlot_eq ec'_def)
    have len: "n = length (slots ec')" using Suc.prems by (simp add: ec'_def)
    have res: "slotResult r sco (slots ec ! k) = x" using Inr by (simp add: slotResult_def)
    have nth: "\<And>i. Suc k \<le> i \<Longrightarrow> slots ec' ! i = slots ec ! i"
      by (simp add: ec'_def)
    have ex: "(\<exists>i. k \<le> i \<and> i < n \<and> isl (slotTarget r sco (slots ec ! i))) \<longleftrightarrow>
              (\<exists>i. Suc k \<le> i \<and> i < n \<and> isl (slotTarget r sco (slots ec' ! i)))"
    proof -
      have "\<And>i. k \<le> i \<and> i < n \<and> isl (slotTarget r sco (slots ec ! i)) \<longleftrightarrow>
                 Suc k \<le> i \<and> i < n \<and> isl (slotTarget r sco (slots ec' ! i))"
        using Inr nth by (metis Suc_leI le_neq_implies_less not_less_eq_eq sum.disc(2) nat_le_linear)
      then show ?thesis by blast
    qed
    have tk: "take (Suc k) (slots ec') = take k (slots ec) @ [?f (slots ec ! k)]"
      using kn Suc.prems res by (simp add: ec'_def take_Suc_conv_app_nth)
    have dr: "drop (Suc k) (slots ec') = drop (Suc k) (slots ec)"
      by (simp add: ec'_def)
    have dk: "drop k (slots ec) = slots ec ! k # drop (Suc k) (slots ec)"
      using kn Suc.prems by (simp add: Cons_nth_drop_Suc)
    have fl: "filter (\<lambda>i. slotResult r sco (slots ec' ! i) \<noteq> None) [Suc k..<n] =
              filter (\<lambda>i. slotResult r sco (slots ec ! i) \<noteq> None) [Suc k..<n]"
      by (rule filter_cong) (simp_all add: nth)
    have ca: "appendCache (cachedConnectedSlots ec')
                (filter (\<lambda>i. slotResult r sco (slots ec' ! i) \<noteq> None) [Suc k..<n]) =
              appendCache (cachedConnectedSlots ec)
                (filter (\<lambda>i. slotResult r sco (slots ec ! i) \<noteq> None) [k..<n])"
    proof -
      have cc: "cachedConnectedSlots ec' =
                  appendCache (cachedConnectedSlots ec) (if x = None then [] else [k])"
        by (simp add: ec'_def)
      have "(if x = None then [] else [k]) @
              filter (\<lambda>i. slotResult r sco (slots ec ! i) \<noteq> None) [Suc k..<n] =
            filter (\<lambda>i. slotResult r sco (slots ec ! i) \<noteq> None) [k..<n]"
        using kn res by (cases x) (simp_all add: upt_conv_Cons)
      then show ?thesis unfolding fl cc appendCache_append by simp
    qed
    have IH: "recomputeSlots r sco [Suc k..<n] ec' =
     (if \<exists>i. Suc k \<le> i \<and> i < n \<and> isl (slotTarget r sco (slots ec' ! i)) then Inl TypeError
      else Inr \<lparr>slots = take (Suc k) (slots ec') @ map ?f (drop (Suc k) (slots ec')),
               cachedConnectedSlots = appendCache (cachedConnectedSlots ec')
                 (filter (\<lambda>i. slotResult r sco (slots ec' ! i) \<noteq> None) [Suc k..<n])\<rparr>)"
      using Suc.hyps(2) kn len by (intro Suc.hyps(1)) simp_all
    show ?thesis
      unfolding step IH ex[symmetric] ca tk dr
      by (auto simp: dk)
  qed
qed

lemma recomputeSingleEntityCache_eq:
  "recomputeSingleEntityCache e r =
     (if recomputeFails r (entities r e) then Inl TypeError
      else Inr (r\<lparr>entities := (entities r)(e := recomputedEntity r (entities r e))\<rparr>))"
proof (cases "ItemEjector (entities r e)")
  case None
  then show ?thesis by (simp add: recomputeSingleEntityCache_def recomputeFails_def)
next
  case (Some ec)
  have ex: "(\<exists>i<length (slots ec).
               isl (slotTarget r (StaticMapEntity (entities r e)) (slots ec ! i))) \<longleftrightarrow>
            (\<exists>s \<in> set (slots ec). isl (slotTarget r (StaticMapEntity (entities r e)) s))"
    by (metis in_set_conv_nth)
  show ?thesis
    using Some
    by (simp add: recomputeSingleEntityCache_def recomputeFails_def recomputeSlots_upt ex
        recomputedEntity_def canonicalEjector_def)
qed

subsection \<open>What the cache builder reads and what it writes\<close>

lemma slotTarget_staticEq: "staticEq r r' \<Longrightarrow> slotTarget r' sco s = slotTarget r sco s"
  by (auto simp: staticEq_def slotTarget_def Let_def split: option.splits)

lemma slotResult_staticEq: "staticEq r r' \<Longrightarrow> slotResult r' sco s = slotResult r sco s"
  by (simp add: slotResult_def slotTarget_staticEq)

lemma recomputedEntity_staticEq:
  "staticEq r r' \<Longrightarrow> recomputedEntity r' ent = recomputedEntity r ent"
  by (simp add: recomputedEntity_def canonicalEjector_def slotResult_staticEq cong: map_option_cong)

lemma recomputeFails_staticEq:
  "staticEq r r' \<Longrightarrow> recomputeFails r' ent = recomputeFails r ent"
  by (simp add: recomputeFails_def slotTarget_staticEq split: option.splits)

lemma setCache_idem [simp]: "setCache x (setCache x s) = setCache x s"
  by (cases "(x, s)" rule: setCache.cases) simp_all

lemma canonicalEjector_idem:
  "canonicalEjector r sco (canonicalEjector r sco ec) = canonicalEjector r sco ec"
proof -
  have "filter (\<lambda>i. slotResult r sco
            (map (\<lambda>s. setCache (slotResult r sco s) s) (slots ec) ! i) \<noteq> None)
          [0..<length (slots ec)] =
        filter (\<lambda>i. slotResult r sco (slots ec ! i) \<noteq> None) [0..<length (slots ec)]"
    by (rule filter_cong) simp_all
  then show ?thesis by (simp add: canonicalEjector_def)
qed

lemma recomputedEntity_idem:
  "recomputedEntity r (recomputedEntity r ent) = recomputedEntity r ent"
  by (cases "ItemEjector ent") (simp_all add: recomputedEntity_def canonicalEjector_idem)

lemma recomputeFails_recomputed:
  "recomputeFails r (recomputedEntity r ent) = recomputeFails r ent"
  by (cases "ItemEjector ent") (simp_all add: recomputeFails_def recomputedEntity_def canonicalEjector_def)

lemma staticEq_refl [simp]: "staticEq r r"
  by (simp add: staticEq_def)

lemma staticEq_recomputed:
  "staticEq r (r\<lparr>entities :=
      (\<lambda>u. if u \<in> V then recomputedEntity r (entities r u) else entities r u)\<rparr>)"
  by (simp add: staticEq_def recomputedEntity_def)

lemma staticEq_recomputed1:
  "staticEq r (r\<lparr>entities := (entities r)(e := recomputedEntity r (entities r e))\<rparr>)"
  by (simp add: staticEq_def recomputedEntity_def)

lemma ItemEjector_recomputed [simp]:
  "ItemEjector (recomputedEntity r ent) = None \<longleftrightarrow> ItemEjector ent = None"
  by (simp add: recomputedEntity_def)

subsection \<open>The recompute loops in closed form\<close>

lemma recomputeSet_empty [simp]: "recomputeSet {} r = Inr r"
  by (simp add: recomputeSet_def)

lemma recomputeSet_insert:
  "recomputeSet (insert e V) r =
     (case recomputeSingleEntityCache e r of Inl err \<Rightarrow> Inl TypeError | Inr r1 \<Rightarrow> recomputeSet V r1)"
proof (cases "recomputeFails r (entities r e)")
  case True
  then show ?thesis by (simp add: recomputeSet_def recomputeSingleEntityCache_eq)
next
  case False
  define r1 where "r1 = r\<lparr>entities := (entities r)(e := recomputedEntity r (entities r e))\<rparr>"
  have st: "staticEq r r1" unfolding r1_def by (rule staticEq_recomputed1)
  have fails: "\<And>u. recomputeFails r1 (entities r1 u) = recomputeFails r (entities r u)"
    by (simp add: recomputeFails_staticEq[OF st]) (simp add: r1_def recomputeFails_recomputed)
  have rec: "\<And>u. recomputedEntity r1 (entities r1 u) =
                   (if u = e then recomputedEntity r (entities r e)
                    else recomputedEntity r (entities r u))"
    by (simp add: recomputedEntity_staticEq[OF st]) (simp add: r1_def recomputedEntity_idem)
  have ents: "(\<lambda>u. if u \<in> V then recomputedEntity r1 (entities r1 u) else entities r1 u) =
              (\<lambda>u. if u \<in> insert e V then recomputedEntity r (entities r u) else entities r u)"
    by (rule ext) (simp add: rec, simp add: r1_def)
  have "recomputeSet V r1 = recomputeSet (insert e V) r"
    unfolding recomputeSet_def fails ents using False by (simp add: r1_def)
  then show ?thesis using False by (simp add: recomputeSingleEntityCache_eq r1_def)
qed

lemma recomputeSet_Inl: "recomputeSet V r = Inl err \<Longrightarrow> err = TypeError"
  by (simp add: recomputeSet_def split: if_splits)

lemma recomputeEntities_eq: "recomputeEntities es r = recomputeSet (set es) r"
proof (induction es arbitrary: r)
  case Nil
  then show ?case by simp
next
  case (Cons e es)
  show ?case
    by (cases "recomputeSingleEntityCache e r")
       (simp_all add: recomputeSet_insert Cons.IH recomputeSingleEntityCache_eq split: if_splits)
qed

lemma recomputeTiles_eq:
  "recomputeTiles ts seen r = recomputeSet (ejectorsOn r (set ts) - seen) r"
proof (induction ts arbitrary: seen r)
  case Nil
  then show ?case by (simp add: ejectorsOn_def)
next
  case (Cons t ts)
  show ?case
  proof (cases "getTileContent r t")
    case None
    then have "ejectorsOn r (set (t # ts)) = ejectorsOn r (set ts)"
      by (auto simp: ejectorsOn_def)
    then show ?thesis using None by (simp add: Cons.IH)
  next
    case (Some e)
    show ?thesis
    proof (cases "e \<notin> seen \<and> ItemEjector (entities r e) \<noteq> None")
      case False
      then have "ejectorsOn r (set (t # ts)) - seen = ejectorsOn r (set ts) - seen"
        using Some by (auto simp: ejectorsOn_def)
      then show ?thesis using Some False by (auto simp: Cons.IH)
    next
      case True
      have V: "ejectorsOn r (insert t (set ts)) - seen =
               insert e (ejectorsOn r (set ts) - insert e seen)"
        using Some True by (auto simp: ejectorsOn_def)
      show ?thesis
      proof (cases "recomputeSingleEntityCache e r")
        case (Inl err)
        then show ?thesis using Some True
          by (simp add: V recomputeSet_insert recomputeSingleEntityCache_eq split: if_splits)
      next
        case (Inr r1)
        then have r1: "r1 = r\<lparr>entities := (entities r)(e := recomputedEntity r (entities r e))\<rparr>"
          by (simp add: recomputeSingleEntityCache_eq split: if_splits)
        have "\<And>u. (ItemEjector (entities r1 u) = None) = (ItemEjector (entities r u) = None)"
          by (simp add: r1)
        moreover have "getTileContent r1 = getTileContent r" by (simp add: r1)
        ultimately have "ejectorsOn r1 (set ts) = ejectorsOn r (set ts)"
          unfolding ejectorsOn_def by simp
        then show ?thesis using Some True Inr
          by (simp add: V recomputeSet_insert Cons.IH)
      qed
    qed
  qed
qed

lemma set_areaTiles: "set (areaTiles area) = {t. containsTile area t}"
  by (auto simp: areaTiles_def containsTile_def)

lemma recomputeAreaCache_eq:
  "recomputeAreaCache area r = recomputeSet (ejectorsOn r {t. containsTile area t}) r"
  by (simp add: recomputeAreaCache_def recomputeTiles_eq set_areaTiles)

lemma recomputeSet_Inr:
  assumes "recomputeSet V r = Inr r'"
  shows "staticEq r r'"
    and "\<And>u. entities r' u = (if u \<in> V then recomputedEntity r (entities r u) else entities r u)"
    and "\<And>T. ejectorsOn r' T = ejectorsOn r T"
    and "\<And>u. u \<in> V \<Longrightarrow> \<not> recomputeFails r (entities r u)"
proof -
  have r': "r' = r\<lparr>entities :=
                  (\<lambda>u. if u \<in> V then recomputedEntity r (entities r u) else entities r u)\<rparr>"
    and nf: "\<forall>u \<in> V. \<not> recomputeFails r (entities r u)"
    using assms by (auto simp: recomputeSet_def split: if_splits)
  show "staticEq r r'" unfolding r' by (rule staticEq_recomputed)
  show ents: "\<And>u. entities r' u =
      (if u \<in> V then recomputedEntity r (entities r u) else entities r u)"
    by (simp add: r')
  have "\<And>u. (ItemEjector (entities r' u) = None) = (ItemEjector (entities r u) = None)"
    by (simp add: ents)
  moreover have "getTileContent r' = getTileContent r" by (simp add: r')
  ultimately show "\<And>T. ejectorsOn r' T = ejectorsOn r T"
    unfolding ejectorsOn_def by simp
  show "\<And>u. u \<in> V \<Longrightarrow> \<not> recomputeFails r (entities r u)" using nf by blast
qed

lemma recomputeSet_idem:
  assumes "recomputeSet V r = Inr r'"
  shows "recomputeSet V r' = Inr r'"
proof -
  note f = recomputeSet_Inr[OF assms]
  have fails: "\<And>u. u \<in> V \<Longrightarrow> \<not> recomputeFails r' (entities r' u)"
    by (simp add: recomputeFails_staticEq[OF f(1)] f(2) recomputeFails_recomputed f(4))
  have "(\<lambda>u. if u \<in> V then recomputedEntity r' (entities r' u) else entities r' u) = entities r'"
    by (rule ext) (simp add: recomputedEntity_staticEq[OF f(1)] f(2) recomputedEntity_idem)
  then show ?thesis using fails by (simp add: recomputeSet_def)
qed

subsection \<open>The frame of the transfer loop\<close>

lemma slotFrame_refl [simp]: "slotFrame s s"
  by (simp add: slotFrame_def)


lemma rootFrame_refl [simp]: "rootFrame r r"
  by (simp add: rootFrame_def sameCapabilities_def option.rel_refl)





lemma slotAt_ext [simp]: "slotAt (r\<lparr>ext := x\<rparr>) u k = slotAt r u k"
  by (simp add: slotAt_def)

lemma cacheOf_modifySlot [simp]: "cacheOf (modifySlot u k f r) u' = cacheOf r u'"
  by (auto simp: cacheOf_def modifySlot_def split: option.splits)








subsection \<open>One round of the inner loop of update\<close>





lemma collaboratorsKeep_True [simp]: "collaboratorsKeep r (\<lambda>x. True)"
  by (simp add: collaboratorsKeep_def)






lemma undergroundBeltBaseSpeed_modifySlot [simp]:
  "undergroundBeltBaseSpeed (modifySlot u k f r) = undergroundBeltBaseSpeed r"
  by (simp add: modifySlot_def split: option.splits)



subsection \<open>Relations that the transfer loop preserves\<close>





lemma slotMany_refl [simp]: "slotMany D g r s s"
  by (simp add: slotMany_def)



lemma tickRel_refl [simp]: "tickRel D g r r"
  by (simp add: tickRel_def)


subsection \<open>The example worlds, evaluated\<close>

lemma exampleRoot_sel [simp]:
  "gameInitialized exampleRoot = True"
  "entities exampleRoot = (\<lambda>u. if u = 10 then exampleEjector else if u = 20 then exampleAcceptor else bare)"
  "getTileContent exampleRoot = (\<lambda>t. if t = (0, 0) then Some 10 else if t = (1, 0) then Some 20 else None)"
  "allEntities exampleRoot = [10]"
  "areaToRecompute exampleRoot = None"
  "undergroundBeltBaseSpeed exampleRoot = 2"
  "ext exampleRoot = 0"
  by (simp_all add: exampleRoot_def)

lemma progressGrowth_exampleRoot [simp]: "progressGrowth exampleRoot = 1 / 2"
  by (simp add: progressGrowth_def exampleRoot_def)

lemma exampleEjector_sel [simp]:
  "StaticMapEntity exampleEjector = Some (placedAt (0, 0))"
  "ItemEjector exampleEjector = Some \<lparr>slots = [exampleSlot], cachedConnectedSlots = None\<rparr>"
  "ItemAcceptor exampleEjector = None"
  by (simp_all add: exampleEjector_def bare_def)

lemma exampleAcceptor_sel [simp]:
  "StaticMapEntity exampleAcceptor = Some (placedAt (1, 0))"
  "ItemEjector exampleAcceptor = None"
  "Belt exampleAcceptor = None"
  by (simp_all add: exampleAcceptor_def bare_def)

lemma connectedRoot_sel [simp]:
  "gameInitialized connectedRoot = True"
  "entities connectedRoot = (entities exampleRoot)
      (10 := exampleEjector\<lparr>ItemEjector :=
         Some \<lparr>slots = [connectedSlot], cachedConnectedSlots = Some [0]\<rparr>\<rparr>)"
  "getTileContent connectedRoot = getTileContent exampleRoot"
  "allEntities connectedRoot = [10]"
  "areaToRecompute connectedRoot = None"
  "undergroundBeltBaseSpeed connectedRoot = 2"
  "ext connectedRoot = 0"
  by (simp_all add: connectedRoot_def)

lemma progressGrowth_connectedRoot [simp]: "progressGrowth connectedRoot = 1 / 2"
  by (simp add: progressGrowth_def connectedRoot_def exampleRoot_def)

lemma recomputeSingleEntityCache_example:
  "recomputeSingleEntityCache 10 exampleRoot = Inr connectedRoot"
  by (simp add: recomputeSingleEntityCache_def recomputeSlot_def connectedRoot_def
      exampleAcceptor_def bare_def placedAt_def exampleSlot_def connectedSlot_def vec_add_def)

subsection \<open>The pending rectangle\<close>

lemma checkForCacheInvalidation_mono:
  assumes "areaToRecompute r = Some a" "containsTile a t"
  shows "\<exists>area. areaToRecompute (checkForCacheInvalidation ent r) = Some area \<and> containsTile area t"
  using assms
  by (auto simp: checkForCacheInvalidation_def Let_def containsTile_getUnion split: option.splits)

lemma checkForCacheInvalidation_gameInitialized [simp]:
  "gameInitialized (checkForCacheInvalidation ent r) = gameInitialized r"
  by (simp add: checkForCacheInvalidation_def Let_def split: option.splits)

lemma checkForCacheInvalidation_area:
  assumes "gameInitialized r" "StaticMapEntity ent = Some sc"
  shows "areaToRecompute (checkForCacheInvalidation ent r) =
           Some (case areaToRecompute r of
                   None \<Rightarrow> expandedInAllDirections (getTileSpaceBounds sc) 2
                 | Some area \<Rightarrow> getUnion area (expandedInAllDirections (getTileSpaceBounds sc) 2))"
  using assms by (simp add: checkForCacheInvalidation_def Let_def split: option.splits)

lemma notifyAll_mono:
  "areaToRecompute r = Some a \<Longrightarrow> containsTile a t \<Longrightarrow>
   \<exists>area. areaToRecompute (notifyAll ents r) = Some area \<and> containsTile area t"
proof (induction ents arbitrary: r a)
  case Nil
  then show ?case by simp
next
  case (Cons ent ents)
  from checkForCacheInvalidation_mono[OF Cons.prems, of ent]
  obtain a' where "areaToRecompute (checkForCacheInvalidation ent r) = Some a'" "containsTile a' t"
    by blast
  then show ?case using Cons.IH by simp
qed

lemma notifyAll_covers:
  "gameInitialized r \<Longrightarrow> ent \<in> set ents \<Longrightarrow> StaticMapEntity ent = Some sc \<Longrightarrow>
   containsTile (expandedInAllDirections (getTileSpaceBounds sc) 2) t \<Longrightarrow>
   \<exists>area. areaToRecompute (notifyAll ents r) = Some area \<and> containsTile area t"
proof (induction ents arbitrary: r)
  case Nil
  then show ?case by simp
next
  case (Cons e ents)
  show ?case
  proof (cases "ent = e")
    case True
    have "\<exists>a. areaToRecompute (checkForCacheInvalidation e r) = Some a \<and> containsTile a t"
      using Cons.prems True
      by (cases "areaToRecompute r")
         (simp_all add: checkForCacheInvalidation_area containsTile_getUnion)
    then show ?thesis using notifyAll_mono by fastforce
  next
    case False
    then have "ent \<in> set ents" using Cons.prems by simp
    then show ?thesis using Cons.IH[of "checkForCacheInvalidation e r"] Cons.prems by simp
  qed
qed

subsection \<open>The cache builder against its spec wording\<close>

lemma slotTarget_matchFor:
  assumes "\<forall>t u. getTileContent r t = Some u \<longrightarrow> StaticMapEntity (entities r u) \<noteq> None"
  shows "slotTarget r (Some sc) s = Inr (matchFor r sc s)"
proof (cases "getTileContent r (slotTargetTile sc s)")
  case None
  then show ?thesis
    by (simp add: slotTarget_def matchFor_def slotTargetTile_def Let_def)
next
  case (Some u)
  then obtain usc where "StaticMapEntity (entities r u) = Some usc"
    using assms by blast
  then show ?thesis using Some
    by (simp add: slotTarget_def matchFor_def slotTargetTile_def Let_def split: option.splits)
qed

lemma canonicalEjector_recomputeForEntity:
  assumes "\<forall>t u. getTileContent r t = Some u \<longrightarrow> StaticMapEntity (entities r u) \<noteq> None"
  shows "canonicalEjector r (Some sc) ec = recomputeForEntity r sc ec"
proof -
  have res: "\<And>s. slotResult r (Some sc) s = matchFor r sc s"
    by (simp add: slotResult_def slotTarget_matchFor[OF assms])
  have sc: "\<And>x s. setCache x s =
     (case x of None \<Rightarrow> s\<lparr>cachedDestSlot := None, cachedTargetEntity := None\<rparr>
      | Some (target, m) \<Rightarrow> s\<lparr>cachedDestSlot := Some m, cachedTargetEntity := Some target\<rparr>)"
    by (auto split: option.splits)
  have ac: "\<And>l. appendCache None l = (case l of [] \<Rightarrow> None | i # rest \<Rightarrow> Some (i # rest))"
    by (simp add: appendCache_def split: list.splits)
  show ?thesis
    by (simp add: canonicalEjector_def recomputeForEntity_def res sc ac)
qed

lemma lonelyRoot_sel [simp]:
  "gameInitialized lonelyRoot = True"
  "entities lonelyRoot = entities exampleRoot"
  "getTileContent lonelyRoot = (\<lambda>t. if t = (0, 0) then Some 10 else None)"
  "allEntities lonelyRoot = [10]"
  "areaToRecompute lonelyRoot = None"
  "ext lonelyRoot = 0"
  by (simp_all add: lonelyRoot_def)

lemma cachedTargetEntity_setCache: "cachedTargetEntity (setCache x s) = map_option fst x"
  by (cases "(x, s)" rule: setCache.cases) simp_all

subsection \<open>The loops of update\<close>




lemma rootFrame_slotAt:
  assumes "rootFrame r r'" "slotAt r u j = Some s"
  shows "\<exists>s'. slotAt r' u j = Some s' \<and> slotFrame s s'"
proof -
  have "rel_option slotFrame (slotAt r u j) (slotAt r' u j)"
    using assms(1) by (simp add: rootFrame_def)
  then show ?thesis using assms(2) by (cases "slotAt r' u j") simp_all
qed














subsection \<open>When the transfer loop returns\<close>







subsection \<open>A whole tick and several ticks\<close>

lemma sameLoad_refl [simp]: "sameLoad s s"
  by (simp add: sameLoad_def)

lemma sameLoad_setCache [simp]: "sameLoad s (setCache x s)"
  by (simp add: sameLoad_def)

lemma prepRel_refl [simp]: "prepRel r r"
  by (simp add: prepRel_def sameCapabilities_def)













subsection \<open>Ticks of the example worlds\<close>

lemma withSlot_sel [simp]:
  "gameInitialized (withSlot sl) = True"
  "entities (withSlot sl) = (entities exampleRoot)
      (10 := exampleEjector\<lparr>ItemEjector :=
         Some \<lparr>slots = [sl], cachedConnectedSlots = Some [0]\<rparr>\<rparr>)"
  "getTileContent (withSlot sl) = getTileContent exampleRoot"
  "allEntities (withSlot sl) = [10]"
  "areaToRecompute (withSlot sl) = None"
  "undergroundBeltBaseSpeed (withSlot sl) = 2"
  "ext (withSlot sl) = 0"
  "progressGrowth (withSlot sl) = 1 / 2"
  by (simp_all add: withSlot_def progressGrowth_def connectedRoot_def exampleRoot_def)

lemma staleRoot_sel [simp]:
  "gameInitialized (staleRoot sl) = True"
  "entities (staleRoot sl) = entities (withSlot sl)"
  "getTileContent (staleRoot sl) = (\<lambda>t. if t = (0, 0) then Some 10 else None)"
  "allEntities (staleRoot sl) = [10]"
  "areaToRecompute (staleRoot sl) = None"
  "undergroundBeltBaseSpeed (staleRoot sl) = 2"
  "ext (staleRoot sl) = 0"
  "progressGrowth (staleRoot sl) = 1 / 2"
  by (simp_all add: staleRoot_def progressGrowth_def withSlot_def connectedRoot_def exampleRoot_def)

lemma slot_sel [simp]:
  "item halfwaySlot = Some 7" "progress halfwaySlot = 1 / 2"
  "cachedTargetEntity halfwaySlot = Some 20"
  "cachedDestSlot halfwaySlot = Some \<lparr>index = 0, acceptedDirection = DirLeft\<rparr>"
  "item arrivedSlot = Some 7" "progress arrivedSlot = 1"
  "cachedTargetEntity arrivedSlot = Some 20"
  "cachedDestSlot arrivedSlot = Some \<lparr>index = 0, acceptedDirection = DirLeft\<rparr>"
  "pos arrivedSlot = (0, 0)" "direction arrivedSlot = DirRight"
  by (simp_all add: halfwaySlot_def arrivedSlot_def connectedSlot_def exampleSlot_def)

lemma exampleAcceptor_caps [simp]:
  "ItemAcceptor exampleAcceptor = Some
        \<lparr>findMatchingSlot = (\<lambda>t d. if t = (0, 0) \<and> d = DirRight
                                   then Some \<lparr>index = 0, acceptedDirection = DirLeft\<rparr> else None),
         canAcceptItem = (\<lambda>i it s. s < 2),
         onItemAccepted = (\<lambda>i d it s. s)\<rparr>"
  "Storage exampleAcceptor = Some \<lparr>storageCanAcceptItem = (\<lambda>it s. s < 2), takeItem = (\<lambda>it s. s + 1)\<rparr>"
  "ItemProcessor exampleAcceptor = None" "UndergroundBelt exampleAcceptor = None"
  "EnergyGenerator exampleAcceptor = None"
  by (simp_all add: exampleAcceptor_def bare_def)

lemma tryPassOverItem_exampleAcceptor:
  "ext r < 2 \<Longrightarrow> tryPassOverItem r it exampleAcceptor k = Inr (True, r\<lparr>ext := ext r + 1\<rparr>)"
  by (simp add: tryPassOverItem_def passStorage_def)

lemma update_halfway:
  "update (withSlot halfwaySlot) = Inr ((withSlot emptiedSlot)\<lparr>ext := 1\<rparr>)"
  by (simp add: update_def updateEntity_def updateSlot_def modifySlot_def
      tryPassOverItem_exampleAcceptor)
     (simp add: withSlot_def connectedRoot_def exampleRoot_def halfwaySlot_def emptiedSlot_def connectedSlot_def exampleSlot_def)


lemma fullRoot_sel [simp]:
  "entities (fullRoot sl) = entities (withSlot sl)"
  "allEntities (fullRoot sl) = [10]"
  "areaToRecompute (fullRoot sl) = None"
  "undergroundBeltBaseSpeed (fullRoot sl) = 2"
  "ext (fullRoot sl) = 2"
  "progressGrowth (fullRoot sl) = 1 / 2"
  by (simp_all add: fullRoot_def progressGrowth_def withSlot_def connectedRoot_def exampleRoot_def)








subsection \<open>Events and the pending rectangle\<close>

lemma inner_mono:
  assumes "inner r t"
  shows "inner (checkForCacheInvalidation ent r) t"
proof -
  obtain a where a: "areaToRecompute r = Some a"
    and c: "\<forall>t'. \<bar>fst t' - fst t\<bar> \<le> 2 \<and> \<bar>snd t' - snd t\<bar> \<le> 2 \<longrightarrow> containsTile a t'"
    using assms unfolding inner_def by blast
  show ?thesis
  proof (cases "gameInitialized r \<and> StaticMapEntity ent \<noteq> None")
    case False
    then have "checkForCacheInvalidation ent r = r"
      by (auto simp: checkForCacheInvalidation_def)
    then show ?thesis using assms by simp
  next
    case True
    then obtain sc where sc: "StaticMapEntity ent = Some sc" by auto
    have "areaToRecompute (checkForCacheInvalidation ent r) =
            Some (getUnion a (expandedInAllDirections (getTileSpaceBounds sc) 2))"
      using True sc a by (simp add: checkForCacheInvalidation_area)
    then show ?thesis using c unfolding inner_def
      by (simp add: containsTile_getUnion)
  qed
qed

lemma inner_bounds:
  assumes "gameInitialized r" "StaticMapEntity ent = Some sc"
    "containsTile (getTileSpaceBounds sc) t"
  shows "inner (checkForCacheInvalidation ent r) t"
proof -
  let ?e = "expandedInAllDirections (getTileSpaceBounds sc) 2"
  have e: "\<forall>t'. \<bar>fst t' - fst t\<bar> \<le> 2 \<and> \<bar>snd t' - snd t\<bar> \<le> 2 \<longrightarrow> containsTile ?e t'"
    using assms(3)
    by (auto simp: containsTile_def expandedInAllDirections_def rect_right_def rect_bottom_def)
  show ?thesis
  proof (cases "areaToRecompute r")
    case None
    then have "areaToRecompute (checkForCacheInvalidation ent r) = Some ?e"
      using assms(1,2) by (simp add: checkForCacheInvalidation_area)
    then show ?thesis using e unfolding inner_def by simp
  next
    case (Some a)
    then have "areaToRecompute (checkForCacheInvalidation ent r) = Some (getUnion a ?e)"
      using assms(1,2) by (simp add: checkForCacheInvalidation_area)
    then show ?thesis using e unfolding inner_def by (simp add: containsTile_getUnion)
  qed
qed

lemma checkForCacheInvalidation_fields [simp]:
  "entities (checkForCacheInvalidation ent r) = entities r"
  "getTileContent (checkForCacheInvalidation ent r) = getTileContent r"
  "allEntities (checkForCacheInvalidation ent r) = allEntities r"
  by (simp_all add: checkForCacheInvalidation_def Let_def split: option.splits)

lemma wellFormed_checkForCacheInvalidation [simp]:
  "wellFormed (checkForCacheInvalidation ent r) = wellFormed r"
  by (simp add: wellFormed_def)

lemma afterEvents_invariant:
  assumes "afterEvents r0 r" "wellFormed r0" "areaToRecompute r0 = None"
  shows "wellFormed r \<and> gameInitialized r = gameInitialized r0 \<and>
         (\<not> gameInitialized r0 \<longrightarrow> areaToRecompute r = None) \<and>
         (\<forall>t. getTileContent r t \<noteq> getTileContent r0 t \<longrightarrow> \<not> gameInitialized r0 \<or> inner r t) \<and>
         (\<forall>u t. getTileContent r0 t = Some u \<and> \<not> inner r t \<and> gameInitialized r0 \<longrightarrow>
             entities r u = entities r0 u)"
  using assms
proof (induction rule: afterEvents.induct)
  case afterEvents_none
  then show ?case by simp
next
  case (afterEvents_event r ent r1)
  let ?r2 = "checkForCacheInvalidation ent r1"
  note IH = afterEvents_event.IH[OF afterEvents_event.prems]
  note ed = afterEvents_event.hyps(2)[unfolded gridEdit_def]
  have g1: "gameInitialized r1 = gameInitialized r0" using IH ed by simp
  have a1: "areaToRecompute r1 = areaToRecompute r" using ed by simp
  have in1: "\<And>t. inner r1 t = inner r t" by (simp add: inner_def a1)
  have wf: "wellFormed ?r2" using ed by simp
  have g2: "gameInitialized ?r2 = gameInitialized r0" using g1 by simp
  have n2: "\<not> gameInitialized r0 \<longrightarrow> areaToRecompute ?r2 = None"
    using IH g1 a1 by (auto simp: checkForCacheInvalidation_def)
  have ch: "\<forall>t. getTileContent ?r2 t \<noteq> getTileContent r0 t \<longrightarrow>
               \<not> gameInitialized r0 \<or> inner ?r2 t"
  proof (intro allI impI)
    fix t assume d: "getTileContent ?r2 t \<noteq> getTileContent r0 t"
    show "\<not> gameInitialized r0 \<or> inner ?r2 t"
    proof (cases "getTileContent r1 t = getTileContent r t")
      case True
      then have "getTileContent r t \<noteq> getTileContent r0 t" using d by simp
      then have "\<not> gameInitialized r0 \<or> inner r t" using IH by blast
      then show ?thesis using inner_mono[of r1 t ent] in1 by auto
    next
      case False
      then obtain sc where "StaticMapEntity ent = Some sc"
        "containsTile (getTileSpaceBounds sc) t" using ed by blast
      then show ?thesis using inner_bounds[of r1 ent sc t] g1 by auto
    qed
  qed
  have en: "\<forall>u t. getTileContent r0 t = Some u \<and> \<not> inner ?r2 t \<and> gameInitialized r0 \<longrightarrow>
             entities ?r2 u = entities r0 u"
  proof (intro allI impI)
    fix u t assume h: "getTileContent r0 t = Some u \<and> \<not> inner ?r2 t \<and> gameInitialized r0"
    then have ni: "\<not> inner r t" using inner_mono[of r1 t ent] in1 by auto
    then have e0: "entities r u = entities r0 u" using IH h by blast
    have "getTileContent r t = getTileContent r0 t" using IH ni h by blast
    then have "getTileContent r t = Some u" using h by simp
    then have "entities r1 u = entities r u" using ed by blast
    then show "entities ?r2 u = entities r0 u" using e0 by simp
  qed
  show ?case by (intro conjI wf g2 n2 ch en)
qed

subsection \<open>Entities outside the pending rectangle\<close>

lemma staticEq_area: "staticEq r (r\<lparr>areaToRecompute := a\<rparr>)"
  by (simp add: staticEq_def)

lemma recomputeSet_area:
  "recomputeSet V (r\<lparr>areaToRecompute := a\<rparr>) =
     (case recomputeSet V r of Inl err \<Rightarrow> Inl err | Inr r' \<Rightarrow> Inr (r'\<lparr>areaToRecompute := a\<rparr>))"
proof -
  have e: "entities (r\<lparr>areaToRecompute := a\<rparr>) = entities r" by simp
  have u: "\<And>f. r\<lparr>areaToRecompute := a, entities := f\<rparr> = r\<lparr>entities := f, areaToRecompute := a\<rparr>"
    by simp
  show ?thesis
    unfolding recomputeSet_def recomputeFails_staticEq[OF staticEq_area]
      recomputedEntity_staticEq[OF staticEq_area] e
    by (simp add: u)
qed

lemma recomputeSet_extend:
  assumes "V \<subseteq> W"
    and "\<And>u. u \<in> W \<Longrightarrow> u \<notin> V \<Longrightarrow>
           \<not> recomputeFails r (entities r u) \<and> recomputedEntity r (entities r u) = entities r u"
  shows "recomputeSet W r = recomputeSet V r"
proof -
  have f: "(\<exists>u \<in> W. recomputeFails r (entities r u)) \<longleftrightarrow> (\<exists>u \<in> V. recomputeFails r (entities r u))"
    using assms by blast
  have e: "(\<lambda>u. if u \<in> W then recomputedEntity r (entities r u) else entities r u) =
           (\<lambda>u. if u \<in> V then recomputedEntity r (entities r u) else entities r u)"
  proof (rule ext)
    fix u
    show "(if u \<in> W then recomputedEntity r (entities r u) else entities r u) =
          (if u \<in> V then recomputedEntity r (entities r u) else entities r u)"
      using assms by (cases "u \<in> V"; cases "u \<in> W") auto
  qed
  show ?thesis unfolding recomputeSet_def f e ..
qed

lemma slotTarget_local:
  assumes "getTileContent r (slotTargetTile sc s) = getTileContent r0 (slotTargetTile sc s)"
    and "\<And>w. getTileContent r0 (slotTargetTile sc s) = Some w \<Longrightarrow> entities r w = entities r0 w"
  shows "slotTarget r (Some sc) s = slotTarget r0 (Some sc) s"
proof (cases "getTileContent r0 (slotTargetTile sc s)")
  case None
  then show ?thesis using assms(1)
    by (simp add: slotTarget_def slotTargetTile_def Let_def)
next
  case (Some w)
  then have "entities r w = entities r0 w" by (rule assms(2))
  then show ?thesis using assms(1) Some
    by (simp add: slotTarget_def slotTargetTile_def Let_def split: option.splits)
qed

lemma entity_settled:
  assumes "ItemEjector ent = Some ec"
    and "\<And>s. s \<in> set (slots ec) \<Longrightarrow>
           slotTarget r (StaticMapEntity ent) s = slotTarget r0 (StaticMapEntity ent) s"
  shows "recomputeFails r ent = recomputeFails r0 ent"
    and "recomputedEntity r ent = recomputedEntity r0 ent"
proof -
  let ?sco = "StaticMapEntity ent"
  show "recomputeFails r ent = recomputeFails r0 ent"
    using assms by (simp add: recomputeFails_def)
  have res: "\<And>s. s \<in> set (slots ec) \<Longrightarrow> slotResult r ?sco s = slotResult r0 ?sco s"
    using assms(2) by (simp add: slotResult_def)
  have m: "map (\<lambda>s. setCache (slotResult r ?sco s) s) (slots ec) =
           map (\<lambda>s. setCache (slotResult r0 ?sco s) s) (slots ec)"
    by (rule map_cong) (simp_all add: res)
  have f: "filter (\<lambda>i. slotResult r ?sco (slots ec ! i) \<noteq> None) [0..<length (slots ec)] =
           filter (\<lambda>i. slotResult r0 ?sco (slots ec ! i) \<noteq> None) [0..<length (slots ec)]"
    by (rule filter_cong) (simp_all add: res)
  have "canonicalEjector r ?sco ec = canonicalEjector r0 ?sco ec"
    unfolding canonicalEjector_def m f ..
  then show "recomputedEntity r ent = recomputedEntity r0 ent"
    using assms(1) by (simp add: recomputedEntity_def)
qed

lemma enumDirectionToVector_unit:
  "\<bar>fst (enumDirectionToVector d)\<bar> \<le> 1 \<and> \<bar>snd (enumDirectionToVector d)\<bar> \<le> 1"
  by (cases d) simp_all

lemma inner_neighbour:
  assumes "inner r (vec_add p (enumDirectionToVector d))" "areaToRecompute r = Some a"
  shows "containsTile a p"
proof -
  let ?t = "vec_add p (enumDirectionToVector d)"
  have c: "\<And>t'. \<bar>fst t' - fst ?t\<bar> \<le> 2 \<and> \<bar>snd t' - snd ?t\<bar> \<le> 2 \<Longrightarrow> containsTile a t'"
    using assms unfolding inner_def by auto
  have "\<bar>fst p - fst ?t\<bar> \<le> 2 \<and> \<bar>snd p - snd ?t\<bar> \<le> 2"
    using enumDirectionToVector_unit[of d] by (simp add: vec_add_def)
  then show ?thesis by (rule c)
qed

lemma inner_self:
  assumes "inner r t" "areaToRecompute r = Some a"
  shows "containsTile a t"
proof -
  have c: "\<And>t'. \<bar>fst t' - fst t\<bar> \<le> 2 \<and> \<bar>snd t' - snd t\<bar> \<le> 2 \<Longrightarrow> containsTile a t'"
    using assms unfolding inner_def by auto
  show ?thesis by (rule c) simp
qed

lemma untouched_entity_settled:
  assumes wf0: "wellFormed r0" and a0: "areaToRecompute r0 = None"
    and fix0: "recomputeCache r0 = Inr r0" and ev: "afterEvents r0 r"
    and area: "areaToRecompute r = Some a"
    and uW: "u \<in> set (allEntities r)" and uV: "u \<notin> ejectorsOn r {t. containsTile a t}"
  shows "\<not> recomputeFails r (entities r u) \<and> recomputedEntity r (entities r u) = entities r u"
proof -
  note inv = afterEvents_invariant[OF ev wf0 a0]
  note wf = inv[THEN conjunct1]
  have g0: "gameInitialized r0" using inv area by auto
  have same_tile: "\<And>t. \<not> inner r t \<Longrightarrow> getTileContent r t = getTileContent r0 t"
    using inv g0 by blast
  have same_ent: "\<And>w t. getTileContent r0 t = Some w \<Longrightarrow> \<not> inner r t \<Longrightarrow>
      entities r w = entities r0 w"
    using inv g0 by blast
  have ej: "ItemEjector (entities r u) \<noteq> None" and "\<exists>q. getTileContent r q = Some u"
    using wf uW unfolding wellFormed_def by blast+
  then obtain q where q: "getTileContent r q = Some u" by blast
  have outside: "\<And>t. getTileContent r t = Some u \<Longrightarrow> \<not> containsTile a t"
    using uV ej unfolding ejectorsOn_def by blast
  have nq: "\<not> inner r q" using outside[OF q] inner_self[OF _ area] by blast
  have q0: "getTileContent r0 q = Some u" using same_tile[OF nq] q by simp
  have e0: "entities r u = entities r0 u" by (rule same_ent[OF q0 nq])
  have ej0: "ItemEjector (entities r0 u) \<noteq> None" using ej e0 by simp
  have "u \<in> set (allEntities r0)"
    using wf0 q0 ej0 unfolding wellFormed_def by blast
  moreover have fp: "recomputeSet (set (allEntities r0)) r0 = Inr r0"
    using fix0 a0 by (simp add: recomputeCache_def recomputeEntities_eq)
  ultimately have nf0: "\<not> recomputeFails r0 (entities r0 u)"
    and id0: "recomputedEntity r0 (entities r0 u) = entities r0 u"
    using recomputeSet_Inr(2,4)[OF fp, of u] by simp_all
  obtain ec where ec: "ItemEjector (entities r u) = Some ec" using ej by blast
  have slots: "slotTarget r (StaticMapEntity (entities r u)) s =
               slotTarget r0 (StaticMapEntity (entities r u)) s"
    if s: "s \<in> set (slots ec)" for s
  proof -
    obtain sc where sc: "StaticMapEntity (entities r u) = Some sc"
      and p: "getTileContent r (localTileToWorld sc (pos s)) = Some u"
      using wf uW ec s unfolding wellFormed_def by blast
    let ?tt = "slotTargetTile sc s"
    have "\<not> containsTile a (localTileToWorld sc (pos s))" by (rule outside[OF p])
    then have ni: "\<not> inner r ?tt"
      using inner_neighbour[OF _ area] unfolding slotTargetTile_def by blast
    have 1: "getTileContent r ?tt = getTileContent r0 ?tt" by (rule same_tile[OF ni])
    have 2: "\<And>w. getTileContent r0 ?tt = Some w \<Longrightarrow> entities r w = entities r0 w"
      using same_ent ni by blast
    show ?thesis unfolding sc by (rule slotTarget_local[OF 1 2])
  qed
  note settled = entity_settled[OF ec slots]
  show ?thesis using settled nf0 id0 e0 by simp
qed

subsection \<open>A tick after events\<close>








subsection \<open>An event on the example world\<close>

lemma wellFormed_lonelyRoot: "wellFormed lonelyRoot"
  unfolding wellFormed_def
proof (intro conjI allI impI)
  fix u :: uid
  show "(u \<in> set (allEntities lonelyRoot)) =
        (ItemEjector (entities lonelyRoot u) \<noteq> None \<and> (\<exists>t. getTileContent lonelyRoot t = Some u))"
  proof (cases "u = 10")
    case True
    have "getTileContent lonelyRoot (0, 0) = Some 10" by simp
    then have "\<exists>t. getTileContent lonelyRoot t = Some 10" by (rule exI)
    then show ?thesis using True by simp
  next
    case False
    then show ?thesis by (simp add: bare_def)
  qed
next
  fix u :: uid and ec s
  assume "u \<in> set (allEntities lonelyRoot) \<and> ItemEjector (entities lonelyRoot u) = Some ec \<and> s \<in> set (slots ec)"
  then have "u = 10" "s = exampleSlot" by auto
  then show "\<exists>sc. StaticMapEntity (entities lonelyRoot u) = Some sc \<and>
                 getTileContent lonelyRoot (localTileToWorld sc (pos s)) = Some u"
    by (simp add: placedAt_def vec_add_def exampleSlot_def)
qed

lemma wellFormed_exampleRoot: "wellFormed exampleRoot"
  unfolding wellFormed_def
proof (intro conjI allI impI)
  fix u :: uid
  show "(u \<in> set (allEntities exampleRoot)) =
        (ItemEjector (entities exampleRoot u) \<noteq> None \<and> (\<exists>t. getTileContent exampleRoot t = Some u))"
  proof (cases "u = 10")
    case True
    have "getTileContent exampleRoot (0, 0) = Some 10" by simp
    then have "\<exists>t. getTileContent exampleRoot t = Some 10" by (rule exI)
    then show ?thesis using True by simp
  next
    case False
    then show ?thesis by (simp add: bare_def)
  qed
next
  fix u :: uid and ec s
  assume "u \<in> set (allEntities exampleRoot) \<and> ItemEjector (entities exampleRoot u) = Some ec \<and> s \<in> set (slots ec)"
  then have "u = 10" "s = exampleSlot" by auto
  then show "\<exists>sc. StaticMapEntity (entities exampleRoot u) = Some sc \<and>
                 getTileContent exampleRoot (localTileToWorld sc (pos s)) = Some u"
    by (simp add: placedAt_def vec_add_def exampleSlot_def)
qed

lemma recomputeCache_lonelyRoot: "recomputeCache lonelyRoot = Inr lonelyRoot"
proof -
  have "recomputeSingleEntityCache 10 lonelyRoot = Inr lonelyRoot"
    by (simp add: recomputeSingleEntityCache_def recomputeSlot_def placedAt_def exampleSlot_def
      vec_add_def lonelyRoot_def exampleRoot_def fun_eq_iff exampleEjector_def bare_def)
  then show ?thesis by (simp add: recomputeCache_def)
qed

lemma gridEdit_example: "gridEdit exampleAcceptor lonelyRoot exampleRoot"
  unfolding gridEdit_def
  by (auto simp: wellFormed_exampleRoot placedAt_def containsTile_def rect_right_def
      rect_bottom_def split: if_splits)

lemma recomputeCache_exampleRoot: "recomputeCache exampleRoot = Inr connectedRoot"
  by (simp add: recomputeCache_def recomputeSingleEntityCache_example)

lemma invalidated_example:
  "(checkForCacheInvalidation exampleAcceptor exampleRoot)\<lparr>areaToRecompute := None\<rparr> = exampleRoot"
  by (simp add: checkForCacheInvalidation_def exampleRoot_def)






section \<open>The claims\<close>

subsection \<open>C1: the incremental recomputation is correct\<close>

text \<open>
  Claim C1. Start from a well-formed world \<open>r0\<close> with nothing pending whose cache is
  what a full recomputation gives (\<open>recomputeCache r0 = Inr r0\<close>), and let \<open>r\<close> be the
  world after any sequence of entity-added and entity-removed events, each followed by
  \<^verbatim>\<open>checkForCacheInvalidation\<close>. Then \<^verbatim>\<open>recomputeCache\<close> on \<open>r\<close>, which
  recomputes the pending rectangle only, returns exactly what the full recomputation from
  scratch returns on the same grid (the same state, or an exception in both); and an
  \<^verbatim>\<open>update\<close> that consumes the pending rectangle is the full recomputation followed
  by the transfer loop.
\<close>

theorem incremental_recompute_correct:
  assumes "wellFormed r0" and "areaToRecompute r0 = None"
    and "recomputeCache r0 = Inr r0" and "afterEvents r0 r"
  shows "recomputeCache r = recomputeCache (r\<lparr>areaToRecompute := None\<rparr>) \<and>
         (areaToRecompute r \<noteq> None \<longrightarrow>
            update r = (case recomputeCache (r\<lparr>areaToRecompute := None\<rparr>) of
                          Inl err \<Rightarrow> Inl err
                        | Inr r1 \<Rightarrow> updateEntities (progressGrowth r1) (allEntities r1) r1))"
proof -
  have main: "recomputeCache r = recomputeCache (r\<lparr>areaToRecompute := None\<rparr>)"
  proof (cases "areaToRecompute r")
    case None
    then have "r\<lparr>areaToRecompute := None\<rparr> = r" by simp
    then show ?thesis by simp
  next
    case (Some a)
    let ?V = "ejectorsOn r {t. containsTile a t}"
    let ?W = "set (allEntities r)"
    have wf: "wellFormed r" using afterEvents_invariant[OF assms(4,1,2)] by simp
    have sub: "?V \<subseteq> ?W"
      using wf unfolding wellFormed_def ejectorsOn_def by blast
    have ext: "recomputeSet ?W r = recomputeSet ?V r"
      by (rule recomputeSet_extend[OF sub])
         (rule untouched_entity_settled[OF assms Some])
    have l: "recomputeCache r =
        (case recomputeSet ?V r of Inl err \<Rightarrow> Inl err
         | Inr r' \<Rightarrow> Inr (r'\<lparr>areaToRecompute := None\<rparr>))"
      using Some by (simp add: recomputeCache_def recomputeAreaCache_eq)
    have "recomputeCache (r\<lparr>areaToRecompute := None\<rparr>) =
        recomputeSet ?W (r\<lparr>areaToRecompute := None\<rparr>)"
      by (simp add: recomputeCache_def recomputeEntities_eq)
    then show ?thesis unfolding l recomputeSet_area ext by simp
  qed
  show ?thesis
  proof (intro conjI impI main)
    assume "areaToRecompute r \<noteq> None"
    then show "update r = (case recomputeCache (r\<lparr>areaToRecompute := None\<rparr>) of
                          Inl err \<Rightarrow> Inl err
                        | Inr r1 \<Rightarrow> updateEntities (progressGrowth r1) (allEntities r1) r1)"
      unfolding main[symmetric] by (simp add: update_def)
  qed
qed

theorem incremental_recompute_correct_witness:
  "wellFormed lonelyRoot \<and> areaToRecompute lonelyRoot = None \<and>
   recomputeCache lonelyRoot = Inr lonelyRoot \<and>
   afterEvents lonelyRoot (checkForCacheInvalidation exampleAcceptor exampleRoot) \<and>
   areaToRecompute (checkForCacheInvalidation exampleAcceptor exampleRoot) =
     Some (Rectangle (-1) (-2) 5 5) \<and>
   recomputeCache (checkForCacheInvalidation exampleAcceptor exampleRoot) = Inr connectedRoot"
proof -
  have 1: "wellFormed lonelyRoot" by (rule wellFormed_lonelyRoot)
  have 2: "areaToRecompute lonelyRoot = None" by simp
  have 3: "recomputeCache lonelyRoot = Inr lonelyRoot" by (rule recomputeCache_lonelyRoot)
  have 4: "afterEvents lonelyRoot (checkForCacheInvalidation exampleAcceptor exampleRoot)"
    by (rule afterEvents_event[OF afterEvents_none gridEdit_example])
  have 5: "areaToRecompute (checkForCacheInvalidation exampleAcceptor exampleRoot) =
     Some (Rectangle (-1) (-2) 5 5)"
    by (simp add: checkForCacheInvalidation_def expandedInAllDirections_def placedAt_def)
  have "recomputeCache (checkForCacheInvalidation exampleAcceptor exampleRoot) =
        recomputeCache ((checkForCacheInvalidation exampleAcceptor exampleRoot)
                          \<lparr>areaToRecompute := None\<rparr>)"
    using incremental_recompute_correct[OF 1 2 3 4] by (rule conjunct1)
  then have 6: "recomputeCache (checkForCacheInvalidation exampleAcceptor exampleRoot) =
       Inr connectedRoot"
    unfolding invalidated_example recomputeCache_exampleRoot .
  show ?thesis by (intro conjI 1 2 3 4 5 6)
qed

subsection \<open>C2: progress and item of a slot across update ticks\<close>



subsection \<open>C3: a cached target that has been destroyed\<close>



subsection \<open>C4: recomputing one entity\<close>

text \<open>
  Claim C4. \<^verbatim>\<open>recomputeSingleEntityCache(entity)\<close> clears
  \<^verbatim>\<open>cachedConnectedSlots\<close> and the cached target fields of every slot; for every slot
  it takes as target tile the world position of the slot plus the unit vector of its world
  direction; when the tile is empty, or its occupant has no acceptor, or
  \<^verbatim>\<open>findMatchingSlot\<close> (called with tile and direction in the local space of the
  occupant) finds nothing, the slot is skipped without an error and its fields stay
  cleared; on a match the slot is appended to \<^verbatim>\<open>cachedConnectedSlots\<close> and its target
  entity and destination slot are set. Stated as a refinement: for an entity with an
  ejector and placement, on a grid whose occupants all have placement, the function
  returns, and the component it leaves is \<open>recomputeForEntity\<close>.
\<close>

theorem recomputeSingleEntityCache_spec:
  assumes "ItemEjector (entities r e) = Some ec"
    and "StaticMapEntity (entities r e) = Some sc"
    and "\<forall>t u. getTileContent r t = Some u \<longrightarrow> StaticMapEntity (entities r u) \<noteq> None"
  shows "recomputeSingleEntityCache e r =
           Inr (r\<lparr>entities := (entities r)
                  (e := (entities r e)\<lparr>ItemEjector := Some (recomputeForEntity r sc ec)\<rparr>)\<rparr>)"
proof -
  have "\<not> recomputeFails r (entities r e)"
    using assms(1,2) by (simp add: recomputeFails_def slotTarget_matchFor[OF assms(3)])
  then show ?thesis
    using assms(1,2)
    by (simp add: recomputeSingleEntityCache_eq recomputedEntity_def
        canonicalEjector_recomputeForEntity[OF assms(3)])
qed

theorem recomputeSingleEntityCache_spec_witness:
  "recomputeSingleEntityCache 10 exampleRoot = Inr connectedRoot"
proof -
  have 1: "ItemEjector (entities exampleRoot 10) =
             Some \<lparr>slots = [exampleSlot], cachedConnectedSlots = None\<rparr>"
    by simp
  have 2: "StaticMapEntity (entities exampleRoot 10) = Some (placedAt (0, 0))"
    by simp
  have 3: "\<forall>t u. getTileContent exampleRoot t = Some u \<longrightarrow>
             StaticMapEntity (entities exampleRoot u) \<noteq> None"
    by simp
  have 4: "recomputeForEntity exampleRoot (placedAt (0, 0))
             \<lparr>slots = [exampleSlot], cachedConnectedSlots = None\<rparr> =
           \<lparr>slots = [connectedSlot], cachedConnectedSlots = Some [0]\<rparr>"
    by (simp add: recomputeForEntity_def matchFor_def slotTargetTile_def placedAt_def
        exampleSlot_def connectedSlot_def vec_add_def exampleAcceptor_def bare_def)
  show ?thesis
    unfolding recomputeSingleEntityCache_spec[OF 1 2 3] 4
    by (simp add: connectedRoot_def)
qed

subsection \<open>C5: the priority order of the handover\<close>

text \<open>
  Claim C5. \<^verbatim>\<open>tryPassOverItem(item, receiver, slotIndex)\<close> tries the capabilities
  of the receiver in the fixed order belt path, storage, item processor, underground belt
  (with the underground belt speed of the hub goals), energy generator. It returns
  \<^verbatim>\<open>true\<close> at the first capability that accepts the item and \<^verbatim>\<open>false\<close>, without
  raising, when none of the capabilities present accepts. Stated as a refinement: unless the
  receiver is a belt without a path, the result is that of \<open>firstAccepting\<close> on the list
  \<open>presentCapabilities\<close>, started in the collaborator state of the call.
\<close>

theorem tryPassOverItem_priority_order:
  assumes "\<forall>beltComp. Belt receiver = Some beltComp \<longrightarrow> assignedPath beltComp \<noteq> None"
  shows "tryPassOverItem r it receiver slotIndex =
           Inr (fst (firstAccepting (presentCapabilities r it receiver slotIndex) (ext r)),
                r\<lparr>ext := snd (firstAccepting (presentCapabilities r it receiver slotIndex) (ext r))\<rparr>)"
  using assms by (auto simp: tryPassOverItem_eq beltBroken_def withExt_def)

theorem tryPassOverItem_priority_order_witness:
  "tryPassOverItem connectedRoot 7 beltAndStorage 0 = Inr (True, connectedRoot\<lparr>ext := 1\<rparr>)"
proof -
  have 1: "\<forall>beltComp. Belt beltAndStorage = Some beltComp \<longrightarrow> assignedPath beltComp \<noteq> None"
    by (simp add: beltAndStorage_def bare_def)
  have 2: "firstAccepting (presentCapabilities connectedRoot 7 beltAndStorage 0) (ext connectedRoot) =
             (True, 1)"
    by (simp add: presentCapabilities_def beltAndStorage_def bare_def)
  show ?thesis
    unfolding tryPassOverItem_priority_order[OF 1, of connectedRoot 7 0] 2 by simp
qed

subsection \<open>C6: what \<^verbatim>\<open>cachedConnectedSlots\<close> can tell apart\<close>

text \<open>
  Claim C6 says that \<^verbatim>\<open>cachedConnectedSlots\<close> is a tri-state in which ``computed with
  zero connections'' can be told from ``not yet computed''. The code has two states only.
  In the world \<open>lonelyRoot\<close> the ejector has never been computed; recomputing it finds no
  connection and returns the very same state.
\<close>

theorem cachedConnectedSlots_conflated:
  "ItemEjector (entities lonelyRoot 10) =
     Some \<lparr>slots = [exampleSlot], cachedConnectedSlots = None\<rparr> \<and>
   recomputeSingleEntityCache 10 lonelyRoot = Inr lonelyRoot"
  by (simp add: recomputeSingleEntityCache_def recomputeSlot_def placedAt_def exampleSlot_def
      vec_add_def lonelyRoot_def exampleRoot_def fun_eq_iff exampleEjector_def bare_def)

text \<open>
  Claim C6, amended. After \<^verbatim>\<open>recomputeSingleEntityCache\<close> the field
  \<^verbatim>\<open>cachedConnectedSlots\<close> is either \<^verbatim>\<open>null\<close> or a non-empty array: it is
  \<^verbatim>\<open>null\<close> exactly when no slot of the entity has a cached target (the value it also
  has before any recomputation), and otherwise it lists, in slot order, the slots that
  have one.
\<close>

theorem cachedConnectedSlots_two_states:
  assumes "recomputeSingleEntityCache e r = Inr r'"
  shows "\<exists>ec'. ItemEjector (entities r' e) = Some ec' \<and>
           (cachedConnectedSlots ec' = None \<longleftrightarrow>
              (\<forall>s \<in> set (slots ec'). cachedTargetEntity s = None)) \<and>
           cachedConnectedSlots ec' \<noteq> Some [] \<and>
           (\<forall>c. cachedConnectedSlots ec' = Some c \<longrightarrow>
              c = filter (\<lambda>i. cachedTargetEntity (slots ec' ! i) \<noteq> None)
                    [0 ..< length (slots ec')])"
proof -
  have nf: "\<not> recomputeFails r (entities r e)"
    and r': "r' = r\<lparr>entities := (entities r)(e := recomputedEntity r (entities r e))\<rparr>"
    using assms by (simp_all add: recomputeSingleEntityCache_eq split: if_splits)
  obtain ec where ec: "ItemEjector (entities r e) = Some ec"
    using nf by (cases "ItemEjector (entities r e)") (simp_all add: recomputeFails_def)
  define sco where "sco = StaticMapEntity (entities r e)"
  define ec' where "ec' = canonicalEjector r sco ec"
  define conn where "conn = filter (\<lambda>i. slotResult r sco (slots ec ! i) \<noteq> None) [0..<length (slots ec)]"
  have e': "ItemEjector (entities r' e) = Some ec'"
    by (simp add: r' recomputedEntity_def ec ec'_def sco_def)
  have sl: "slots ec' = map (\<lambda>s. setCache (slotResult r sco s) s) (slots ec)"
    and ca: "cachedConnectedSlots ec' = appendCache None conn"
    by (simp_all add: ec'_def canonicalEjector_def conn_def)
  have conn': "conn = filter (\<lambda>i. cachedTargetEntity (slots ec' ! i) \<noteq> None) [0..<length (slots ec')]"
    unfolding conn_def by (rule filter_cong) (simp_all add: sl cachedTargetEntity_setCache)
  have none: "(conn = []) \<longleftrightarrow> (\<forall>s \<in> set (slots ec'). cachedTargetEntity s = None)"
  proof -
    have "(conn = []) \<longleftrightarrow> (\<forall>i < length (slots ec'). cachedTargetEntity (slots ec' ! i) = None)"
      unfolding conn' by (auto simp: filter_empty_conv)
    also have "\<dots> \<longleftrightarrow> (\<forall>s \<in> set (slots ec'). cachedTargetEntity s = None)"
      by (simp add: all_set_conv_all_nth)
    finally show ?thesis .
  qed
  have a: "(cachedConnectedSlots ec' = None \<longleftrightarrow>
              (\<forall>s \<in> set (slots ec'). cachedTargetEntity s = None))"
    unfolding ca none[symmetric] by (simp add: appendCache_def)
  have b: "cachedConnectedSlots ec' \<noteq> Some []"
    unfolding ca by (simp add: appendCache_def)
  have c: "\<forall>c. cachedConnectedSlots ec' = Some c \<longrightarrow>
              c = filter (\<lambda>i. cachedTargetEntity (slots ec' ! i) \<noteq> None)
                    [0 ..< length (slots ec')]"
    unfolding ca conn'[symmetric] by (simp add: appendCache_def)
  show ?thesis
    by (rule exI[of _ ec']) (intro conjI e' a b c)
qed

theorem cachedConnectedSlots_two_states_witness:
  "\<exists>ec'. ItemEjector (entities connectedRoot 10) = Some ec' \<and>
           (cachedConnectedSlots ec' = None \<longleftrightarrow>
              (\<forall>s \<in> set (slots ec'). cachedTargetEntity s = None)) \<and>
           cachedConnectedSlots ec' \<noteq> Some [] \<and>
           (\<forall>c. cachedConnectedSlots ec' = Some c \<longrightarrow>
              c = filter (\<lambda>i. cachedTargetEntity (slots ec' ! i) \<noteq> None)
                    [0 ..< length (slots ec')])"
  using cachedConnectedSlots_two_states[OF recomputeSingleEntityCache_example] .

subsection \<open>C7: the pending rectangle\<close>

text \<open>
  Claim C7. Every signal for an entity with placement geometry takes the tile-space
  bounds of the entity, expands them by 2 tiles in every direction and merges the result
  into the pending area (the union with the pending rectangle, or the expanded bounds
  when nothing is pending). The pending area is therefore one rectangle, and after any
  batch of signals it contains every tile of every expanded bounding box of the batch and
  every tile that was pending before. The game is initialized: before that, signals are
  ignored.
\<close>

theorem pending_area_covers:
  fixes r :: "'s root"
  assumes "gameInitialized r"
  shows "(\<forall>(ent :: 's entity) sc. StaticMapEntity ent = Some sc \<longrightarrow>
            areaToRecompute (checkForCacheInvalidation ent r) =
              Some (case areaToRecompute r of
                      None \<Rightarrow> expandedInAllDirections (getTileSpaceBounds sc) 2
                    | Some area \<Rightarrow>
                        getUnion area (expandedInAllDirections (getTileSpaceBounds sc) 2))) \<and>
         (\<forall>b x y. containsTile (expandedInAllDirections b 2) (x, y) \<longleftrightarrow>
            rect_x b - 2 \<le> x \<and> x < rect_right b + 2 \<and> rect_y b - 2 \<le> y \<and> y < rect_bottom b + 2) \<and>
         (\<forall>ent sc t. ent \<in> set ents \<and> StaticMapEntity ent = Some sc \<and>
              containsTile (expandedInAllDirections (getTileSpaceBounds sc) 2) t \<longrightarrow>
            (\<exists>area. areaToRecompute (notifyAll ents r) = Some area \<and> containsTile area t)) \<and>
         (\<forall>pending t. areaToRecompute r = Some pending \<and> containsTile pending t \<longrightarrow>
            (\<exists>area. areaToRecompute (notifyAll ents r) = Some area \<and> containsTile area t))"
proof (intro conjI allI impI)
  fix ent :: "'s entity" and sc
  assume "StaticMapEntity ent = Some sc"
  then show "areaToRecompute (checkForCacheInvalidation ent r) =
              Some (case areaToRecompute r of
                      None \<Rightarrow> expandedInAllDirections (getTileSpaceBounds sc) 2
                    | Some area \<Rightarrow>
                        getUnion area (expandedInAllDirections (getTileSpaceBounds sc) 2))"
    using assms by (rule checkForCacheInvalidation_area[rotated])
next
  fix b x y
  show "containsTile (expandedInAllDirections b 2) (x, y) \<longleftrightarrow>
            rect_x b - 2 \<le> x \<and> x < rect_right b + 2 \<and> rect_y b - 2 \<le> y \<and> y < rect_bottom b + 2"
    by (rule containsTile_expanded)
next
  fix ent sc t
  assume "ent \<in> set ents \<and> StaticMapEntity ent = Some sc \<and>
              containsTile (expandedInAllDirections (getTileSpaceBounds sc) 2) t"
  then show "\<exists>area. areaToRecompute (notifyAll ents r) = Some area \<and> containsTile area t"
    using assms notifyAll_covers by blast
next
  fix pending t
  assume "areaToRecompute r = Some pending \<and> containsTile pending t"
  then show "\<exists>area. areaToRecompute (notifyAll ents r) = Some area \<and> containsTile area t"
    using notifyAll_mono by blast
qed

theorem pending_area_covers_witness:
  "gameInitialized connectedRoot \<and>
   areaToRecompute (notifyAll [exampleEjector, exampleAcceptor] connectedRoot) =
     Some (Rectangle (-2) (-2) 6 5) \<and>
   (\<exists>area. areaToRecompute (notifyAll [exampleEjector, exampleAcceptor] connectedRoot) = Some area \<and>
      containsTile area (3, 2))"
proof -
  have g: "gameInitialized connectedRoot" by simp
  have c: "containsTile (expandedInAllDirections (getTileSpaceBounds (placedAt (1, 0))) 2) (3, 2)"
    by (simp add: containsTile_def expandedInAllDirections_def placedAt_def rect_right_def
        rect_bottom_def)
  have a: "areaToRecompute (notifyAll [exampleEjector, exampleAcceptor] connectedRoot) =
     Some (Rectangle (-2) (-2) 6 5)"
    by (simp add: checkForCacheInvalidation_def expandedInAllDirections_def getUnion_def
        placedAt_def rect_right_def rect_bottom_def)
  note covers = pending_area_covers[OF g, of "[exampleEjector, exampleAcceptor]",
      THEN conjunct2, THEN conjunct2, THEN conjunct1, rule_format,
      of exampleAcceptor "placedAt (1, 0)" "(3, 2)"]
  have "\<exists>area. areaToRecompute (notifyAll [exampleEjector, exampleAcceptor] connectedRoot) = Some area \<and>
      containsTile area (3, 2)"
    by (rule covers) (simp add: c)
  then show ?thesis using g a by blast
qed

subsection \<open>C8: a belt without a path\<close>

text \<open>
  Claim C8. When \<^verbatim>\<open>tryPassOverItem\<close> is called on a receiver that has a
  \<^verbatim>\<open>Belt\<close> component whose \<^verbatim>\<open>assignedPath\<close> is absent, the assertion
  \<^verbatim>\<open>assert(path, "belt has no path")\<close> fails: the call raises and no later capability
  is tried.
\<close>

theorem tryPassOverItem_belt_without_path:
  assumes "Belt receiver = Some beltComp" and "assignedPath beltComp = None"
  shows "tryPassOverItem r it receiver slotIndex = Inl (AssertionError ''belt has no path'')"
  using assms by (simp add: tryPassOverItem_def assert_def)

theorem tryPassOverItem_belt_without_path_witness:
  "tryPassOverItem connectedRoot 7 beltWithoutPath 0 = Inl (AssertionError ''belt has no path'')"
proof -
  have 1: "Belt beltWithoutPath = Some \<lparr>assignedPath = None\<rparr>"
    by (simp add: beltWithoutPath_def bare_def)
  have 2: "assignedPath (\<lparr>assignedPath = None\<rparr> :: nat beltComponent) = None"
    by simp
  show ?thesis
    using tryPassOverItem_belt_without_path[OF 1 2] .
qed

subsection \<open>C9: recomputing a region twice\<close>

text \<open>
  Claim C9. For every rectangle, running \<^verbatim>\<open>recomputeAreaCache\<close> on it twice over an
  unchanged grid gives exactly the state that running it once gives (and raises exactly
  when the single run raises).
\<close>

theorem recomputeAreaCache_idempotent:
  "(case recomputeAreaCache area r of
      Inl err \<Rightarrow> Inl err
    | Inr r' \<Rightarrow> recomputeAreaCache area r') = recomputeAreaCache area r"
proof (cases "recomputeAreaCache area r")
  case (Inl err)
  then show ?thesis by simp
next
  case (Inr r')
  then have 1: "recomputeSet (ejectorsOn r {t. containsTile area t}) r = Inr r'"
    by (simp add: recomputeAreaCache_eq)
  have "ejectorsOn r' {t. containsTile area t} = ejectorsOn r {t. containsTile area t}"
    by (rule recomputeSet_Inr(3)[OF 1])
  then have "recomputeAreaCache area r' = Inr r'"
    using recomputeSet_idem[OF 1] by (simp add: recomputeAreaCache_eq)
  then show ?thesis using Inr by simp
qed

subsection \<open>C10: signals that are ignored\<close>

text \<open>
  Claim C10. \<^verbatim>\<open>checkForCacheInvalidation\<close> leaves the pending rectangle
  \<^verbatim>\<open>areaToRecompute\<close> unchanged whenever the game is not yet initialized or the entity
  of the signal has no \<^verbatim>\<open>StaticMapEntity\<close> component. The function then changes
  nothing at all.
\<close>

theorem checkForCacheInvalidation_ignored:
  assumes "\<not> gameInitialized r \<or> StaticMapEntity ent = None"
  shows "areaToRecompute (checkForCacheInvalidation ent r) = areaToRecompute r \<and>
         checkForCacheInvalidation ent r = r"
  using assms by (auto simp: checkForCacheInvalidation_def)

theorem checkForCacheInvalidation_ignored_witness:
  "areaToRecompute (checkForCacheInvalidation exampleAcceptor
       (connectedRoot\<lparr>gameInitialized := False, areaToRecompute := Some (Rectangle 0 0 1 1)\<rparr>)) =
     Some (Rectangle 0 0 1 1) \<and>
   areaToRecompute (checkForCacheInvalidation bare connectedRoot) = None"
proof -
  have 1: "\<not> gameInitialized
             (connectedRoot\<lparr>gameInitialized := False, areaToRecompute := Some (Rectangle 0 0 1 1)\<rparr>) \<or>
           StaticMapEntity exampleAcceptor = None"
    by simp
  have 2: "\<not> gameInitialized connectedRoot \<or> StaticMapEntity (bare :: nat entity) = None"
    by (simp add: bare_def)
  show ?thesis
    using checkForCacheInvalidation_ignored[OF 1] checkForCacheInvalidation_ignored[OF 2]
    by simp
qed

end
